theory Spec2Isabelle
  imports Complex_Main
begin

section \<open>The gesture front-end of the vitrine: data\<close>

text \<open>
  The repository holds two versions of the front-end script:
  \<^verbatim>\<open>src/static/shop_carousel.js\<close> and the later \<^verbatim>\<open>src/unnamed/part_001\<close>, which adds
  face handling and passes \<^verbatim>\<open>hand_detected\<close> to \<^verbatim>\<open>updateThemeMode\<close>. Their navigation,
  overlay, timer and transport code is the same text. Functions whose body differs take the
  version as a parameter.

  The model covers the \<^verbatim>\<open>state\<close> object, the requests the script sends, and the timers and
  responses it waits for; an \<^verbatim>\<open>async\<close> function is split at its \<^verbatim>\<open>await\<close>. Writes to the
  document (classes, texts, images) are left out, and the elements they address are taken to
  exist, so that no handler stops on a missing element.
\<close>

datatype variant = Shop | Faces

text \<open>An item of \<^verbatim>\<open>state.events\<close>: a JSON object, hence truthy whenever it exists.\<close>

record nostr_event =
  ev_id :: string
  ev_pubkey :: string
  ev_content :: string

text \<open>
  A gesture frame as the server sends it. Only the fields that reach the \<^verbatim>\<open>state\<close>
  object are kept; \<^verbatim>\<open>hand_x\<close>, \<^verbatim>\<open>gesture_name\<close> and the hold-progress fields only
  drive CSS classes and text.
\<close>

record gesture =
  action :: string
  hand_detected :: bool
  is_fist :: bool
  light_mode :: bool
  time_until_dark :: real
  face_detected :: bool
  face_count :: int

text \<open>
  The requests to \<^verbatim>\<open>/api/gesture\<close>, \<^verbatim>\<open>/api/set_index\<close> and \<^verbatim>\<open>/api/capture\<close> that the script
  issues with \<^verbatim>\<open>fetch\<close>. The requests for the feed, the configuration and the face statistics
  are not recorded.
\<close>

datatype request = GetGesture | PostSetIndex int | PostCapture

text \<open>
  The fields of the global \<^verbatim>\<open>state\<close> object that the modelled functions read.
  \<^verbatim>\<open>qrInterval\<close> is \<^verbatim>\<open>null\<close> or a timer handle; handles are positive integers, so a
  stored handle is truthy. \<^verbatim>\<open>socket\<close> records whether \<^verbatim>\<open>state.socket\<close> is non-null.
  \<^verbatim>\<open>faceDetected\<close> and \<^verbatim>\<open>faceCount\<close> exist in \<^verbatim>\<open>part_001\<close> only.
\<close>

record state =
  events :: "nostr_event list"
  currentIndex :: int
  showDetail :: bool
  showQR :: bool
  qrCountdown :: int
  qrInterval :: "nat option"
  lastAction :: string
  lightMode :: bool
  timeUntilDark :: real
  socket :: bool
  useWebSocket :: bool
  faceDetected :: bool
  faceCount :: int

text \<open>
  The page around the \<^verbatim>\<open>state\<close> object: whether the two overlay elements exist
  (\<^verbatim>\<open>DOM.detailPanel\<close>, \<^verbatim>\<open>DOM.qrOverlay\<close>), and the browser's event loop as far as the
  script uses it: the interval timers that are active, the next timer handle, the number of
  pending \<^verbatim>\<open>setTimeout(poll, ...)\<close> timers, the number of \<^verbatim>\<open>/api/gesture\<close> and
  \<^verbatim>\<open>/api/capture\<close> requests awaiting their response, and the requests issued so far.
  \<^verbatim>\<open>dispatched\<close> is a history variable: it records the case labels of the
  \<^verbatim>\<open>switch (gesture.action)\<close> in \<^verbatim>\<open>handleGesture\<close> as they are entered; no code reads it.
\<close>

record page = state +
  detailPanel :: bool
  qrOverlay :: bool
  intervals :: "nat set"
  nextHandle :: nat
  pollTimeouts :: nat
  pollsInFlight :: nat
  capturesInFlight :: nat
  requests :: "request list"
  dispatched :: "string list"

definition QR_DISPLAY_TIME :: int where
  "QR_DISPLAY_TIME = 10"

text \<open>The \<^verbatim>\<open>state\<close> literal of the script, on a page with the given overlay elements.\<close>

definition initial :: "bool \<Rightarrow> bool \<Rightarrow> page" where
  "initial dp qo =
     \<lparr> events = [], currentIndex = 0, showDetail = False, showQR = False,
       qrCountdown = 0, qrInterval = None, lastAction = ''idle'', lightMode = False,
       timeUntilDark = 0, socket = False, useWebSocket = False,
       faceDetected = False, faceCount = 0,
       detailPanel = dp, qrOverlay = qo, intervals = {}, nextHandle = 1,
       pollTimeouts = 0, pollsInFlight = 0, capturesInFlight = 0,
       requests = [], dispatched = [] \<rparr>"

section \<open>Navigation\<close>

text \<open>
  \<^verbatim>\<open>navigateTo\<close>: clamp, then always post the index to \<^verbatim>\<open>/api/set_index\<close>.
  With no items \<^verbatim>\<open>maxIndex\<close> is \<open>-1\<close> and the clamp gives \<open>0\<close>.
\<close>

definition navigateTo :: "int \<Rightarrow> page \<Rightarrow> page" where
  "navigateTo index s =
     (let maxIndex = int (length (events s)) - 1;
          s1 = s\<lparr>currentIndex := max 0 (min index maxIndex)\<rparr>
      in s1\<lparr>requests := requests s1 @ [PostSetIndex (currentIndex s1)]\<rparr>)"

definition navigateLeft :: "page \<Rightarrow> page" where
  "navigateLeft s =
     (if currentIndex s > 0 then navigateTo (currentIndex s - 1) s else s)"

definition navigateRight :: "page \<Rightarrow> page" where
  "navigateRight s =
     (if currentIndex s < int (length (events s)) - 1
      then navigateTo (currentIndex s + 1) s else s)"

text \<open>A call of one of the three navigation functions, for sequences of calls.\<close>

datatype nav_call = NavigateTo int | NavigateLeft | NavigateRight

fun call_nav :: "page \<Rightarrow> nav_call \<Rightarrow> page" where
  "call_nav s (NavigateTo i) = navigateTo i s"
| "call_nav s NavigateLeft = navigateLeft s"
| "call_nav s NavigateRight = navigateRight s"

text \<open>The invariant of the navigation state.\<close>

definition index_in_range :: "page \<Rightarrow> bool" where
  "index_in_range s =
     (if events s = [] then currentIndex s = 0
      else 0 \<le> currentIndex s \<and> currentIndex s \<le> int (length (events s)) - 1)"

section \<open>Theme mode\<close>

text \<open>
  \<^verbatim>\<open>updateThemeMode(lightMode, timeUntilDark)\<close> of \<^verbatim>\<open>src/static/shop_carousel.js\<close>:
  the server's value is taken as it is.
\<close>

definition updateThemeMode_shop :: "bool \<Rightarrow> real \<Rightarrow> page \<Rightarrow> page" where
  "updateThemeMode_shop lightMode' timeUntilDark' s =
     (let s1 = (if lightMode' \<noteq> lightMode s then s\<lparr>lightMode := lightMode'\<rparr> else s)
      in s1\<lparr>timeUntilDark := timeUntilDark'\<rparr>)"

text \<open>The constant \<^verbatim>\<open>effectiveLightMode\<close> of \<^verbatim>\<open>updateThemeMode\<close> in \<^verbatim>\<open>part_001\<close>.\<close>

definition effectiveLightMode :: "bool \<Rightarrow> real \<Rightarrow> bool \<Rightarrow> bool" where
  "effectiveLightMode lightMode' timeUntilDark' handDetected =
     (if handDetected then True else (if timeUntilDark' > 0 then lightMode' else False))"

text \<open>\<^verbatim>\<open>updateThemeMode(lightMode, timeUntilDark, handDetected)\<close> of \<^verbatim>\<open>part_001\<close>.\<close>

definition updateThemeMode :: "bool \<Rightarrow> real \<Rightarrow> bool \<Rightarrow> page \<Rightarrow> page" where
  "updateThemeMode lightMode' timeUntilDark' handDetected s =
     (let e = effectiveLightMode lightMode' timeUntilDark' handDetected;
          s1 = (if e \<noteq> lightMode s then s\<lparr>lightMode := e\<rparr> else s)
      in s1\<lparr>timeUntilDark := timeUntilDark'\<rparr>)"

text \<open>\<^verbatim>\<open>updateFaceDetection\<close> of \<^verbatim>\<open>part_001\<close>; \<^verbatim>\<open>faceCount || 0\<close> is the count itself.\<close>

definition updateFaceDetection :: "bool \<Rightarrow> int \<Rightarrow> bool \<Rightarrow> page \<Rightarrow> page" where
  "updateFaceDetection faceDetected' faceCount' handDetected s =
     s\<lparr>faceDetected := faceDetected', faceCount := faceCount'\<rparr>"

section \<open>Overlays\<close>

text \<open>\<^verbatim>\<open>state.events[state.currentIndex]\<close>: \<^verbatim>\<open>undefined\<close> out of range.\<close>

definition current_event :: "page \<Rightarrow> nostr_event option" where
  "current_event s =
     (if 0 \<le> currentIndex s \<and> currentIndex s < int (length (events s))
      then Some (events s ! nat (currentIndex s)) else None)"

text \<open>
  \<^verbatim>\<open>showDetail(event)\<close>; the function shares its name with the flag \<^verbatim>\<open>state.showDetail\<close>.
  The elements the function fills in are taken to exist when the panel does.
\<close>

definition showDetail_fn :: "nostr_event option \<Rightarrow> page \<Rightarrow> page" where
  "showDetail_fn event s =
     (if detailPanel s
      then (case event of None \<Rightarrow> s | Some e \<Rightarrow> s\<lparr>showDetail := True\<rparr>)
      else s)"

definition hideDetail :: "page \<Rightarrow> page" where
  "hideDetail s = (if showDetail s then s\<lparr>showDetail := False\<rparr> else s)"

text \<open>\<^verbatim>\<open>clearInterval\<close> and \<^verbatim>\<open>setInterval\<close> of the browser.\<close>

definition clearInterval :: "nat \<Rightarrow> page \<Rightarrow> page" where
  "clearInterval h s = s\<lparr>intervals := intervals s - {h}\<rparr>"

definition setInterval :: "page \<Rightarrow> nat \<times> page" where
  "setInterval s =
     (nextHandle s,
      s\<lparr>intervals := insert (nextHandle s) (intervals s), nextHandle := Suc (nextHandle s)\<rparr>)"

definition hideQR :: "page \<Rightarrow> page" where
  "hideQR s =
     (let s1 = s\<lparr>showQR := False\<rparr>
      in case qrInterval s1 of
           None \<Rightarrow> s1
         | Some h \<Rightarrow> (clearInterval h s1)\<lparr>qrInterval := None\<rparr>)"

text \<open>\<^verbatim>\<open>showQR(qrData, ...)\<close>; the function shares its name with the flag \<^verbatim>\<open>state.showQR\<close>.\<close>

definition showQR_fn :: "page \<Rightarrow> page" where
  "showQR_fn s =
     (if qrOverlay s
      then (let s1 = s\<lparr>showQR := True, qrCountdown := QR_DISPLAY_TIME\<rparr>;
                s2 = (case qrInterval s1 of None \<Rightarrow> s1 | Some h \<Rightarrow> clearInterval h s1);
                (h', s3) = setInterval s2
            in s3\<lparr>qrInterval := Some h'\<rparr>)
      else s)"

text \<open>The callback that \<^verbatim>\<open>showQR\<close> hands to \<^verbatim>\<open>setInterval\<close>.\<close>

definition qrTick :: "page \<Rightarrow> page" where
  "qrTick s =
     (let s1 = s\<lparr>qrCountdown := qrCountdown s - 1\<rparr>
      in if qrCountdown s1 \<le> 0 then hideQR s1 else s1)"

text \<open>
  \<^verbatim>\<open>capturePhoto\<close> up to its \<^verbatim>\<open>await fetch\<close>, and its continuation on the response:
  \<open>True\<close> is a response with \<^verbatim>\<open>data.success\<close>, \<open>False\<close> a failure or a network error.
\<close>

definition capturePhoto :: "page \<Rightarrow> page" where
  "capturePhoto s =
     (if showQR s then s
      else s\<lparr>requests := requests s @ [PostCapture],
              capturesInFlight := Suc (capturesInFlight s)\<rparr>)"

definition capturePhoto_resume :: "bool \<Rightarrow> page \<Rightarrow> page" where
  "capturePhoto_resume success s = (if success then showQR_fn s else s)"

section \<open>Gesture frames\<close>

text \<open>
  \<^verbatim>\<open>handleGesture\<close>. The first step is the theme update of the version at hand, the second
  the edge detector on \<^verbatim>\<open>gesture.action\<close> with its \<^verbatim>\<open>switch\<close>, the third the fist check.
  What follows in the source only changes CSS classes.
\<close>

definition handleGesture :: "variant \<Rightarrow> gesture \<Rightarrow> page \<Rightarrow> page" where
  "handleGesture v g s =
     (let s1 = (case v of
                  Shop \<Rightarrow> updateThemeMode_shop (light_mode g) (time_until_dark g) s
                | Faces \<Rightarrow>
                    updateThemeMode (light_mode g) (time_until_dark g) (hand_detected g)
                      (updateFaceDetection (face_detected g) (face_count g) (hand_detected g) s));
          s2 = (if action g \<noteq> lastAction s1
                then (let s' = s1\<lparr>lastAction := action g\<rparr>;
                          d = s'\<lparr>dispatched := dispatched s' @ [action g]\<rparr>
                      in if action g = ''nav_left''
                         then (if \<not> showDetail d \<and> \<not> showQR d then navigateRight d else d)
                         else if action g = ''nav_right''
                         then (if \<not> showDetail d \<and> \<not> showQR d then navigateLeft d else d)
                         else if action g = ''detail''
                         then (if \<not> showQR d \<and> current_event d \<noteq> None
                               then showDetail_fn (current_event d) d else d)
                         else if action g = ''detail_close''
                         then hideDetail d
                         else if action g = ''capture''
                         then (if \<not> showQR d then capturePhoto d else d)
                         else s')
                else s1);
          s3 = (if is_fist g \<and> showDetail s2 then hideDetail s2 else s2)
      in s3)"

section \<open>Transport\<close>

text \<open>
  The inner function \<^verbatim>\<open>poll\<close> of \<^verbatim>\<open>startPollingFallback\<close> up to its \<^verbatim>\<open>await fetch\<close>, and
  its continuation: \<open>Some g\<close> is a response that parses to the frame \<open>g\<close>, \<open>None\<close> a
  failed request (the \<^verbatim>\<open>catch\<close> branch, which only writes a status text).
\<close>

definition poll :: "page \<Rightarrow> page" where
  "poll s =
     (if useWebSocket s then s
      else s\<lparr>requests := requests s @ [GetGesture], pollsInFlight := Suc (pollsInFlight s)\<rparr>)"

definition poll_resume :: "variant \<Rightarrow> gesture option \<Rightarrow> page \<Rightarrow> page" where
  "poll_resume v r s =
     (let s1 = (case r of None \<Rightarrow> s | Some g \<Rightarrow> handleGesture v g s)
      in if \<not> useWebSocket s1 then s1\<lparr>pollTimeouts := Suc (pollTimeouts s1)\<rparr> else s1)"

definition startPollingFallback :: "page \<Rightarrow> page" where
  "startPollingFallback s = (if useWebSocket s then s else poll s)"

text \<open>
  \<^verbatim>\<open>startGesturePolling\<close>: \<open>io\<close> says whether Socket.IO is loaded and creates the socket
  without throwing.
\<close>

definition startGesturePolling :: "bool \<Rightarrow> page \<Rightarrow> page" where
  "startGesturePolling io s = (if io then s\<lparr>socket := True\<rparr> else startPollingFallback s)"

text \<open>The four socket handlers registered by \<^verbatim>\<open>startGesturePolling\<close>.\<close>

definition on_connect :: "page \<Rightarrow> page" where
  "on_connect s = s\<lparr>useWebSocket := True\<rparr>"

definition on_gesture :: "variant \<Rightarrow> gesture \<Rightarrow> page \<Rightarrow> page" where
  "on_gesture v g s = handleGesture v g s"

definition on_disconnect :: "page \<Rightarrow> page" where
  "on_disconnect s = startPollingFallback (s\<lparr>useWebSocket := False\<rparr>)"

definition on_connect_error :: "page \<Rightarrow> page" where
  "on_connect_error s =
     (let s1 = s\<lparr>useWebSocket := False\<rparr>;
          s2 = (if socket s1 then s1\<lparr>socket := False\<rparr> else s1)
      in startPollingFallback s2)"

section \<open>Content feed and keyboard\<close>

definition demoEvents :: "nostr_event list" where
  "demoEvents =
     [\<lparr>ev_id = ''demo1'', ev_pubkey = ''copylaradio'', ev_content = ''Welcome to UPlanet!''\<rparr>,
      \<lparr>ev_id = ''demo2'', ev_pubkey = ''system'',
       ev_content = ''Gesture-controlled Nostr viewer''\<rparr>]"

text \<open>
  \<^verbatim>\<open>loadEvents\<close> after its \<^verbatim>\<open>await\<close>: \<open>Some es\<close> is a response with the items \<open>es\<close>,
  \<open>None\<close> the \<^verbatim>\<open>catch\<close> branch with \<^verbatim>\<open>showDemoEvents\<close>.
\<close>

definition loadEvents_resume :: "nostr_event list option \<Rightarrow> page \<Rightarrow> page" where
  "loadEvents_resume r s =
     (case r of
        None \<Rightarrow> s\<lparr>events := demoEvents\<rparr>
      | Some es \<Rightarrow>
          (let s1 = s\<lparr>events := es\<rparr>
           in if length (events s1) > 0 \<and> currentIndex s1 = 0 then navigateTo 0 s1 else s1))"

text \<open>The \<^verbatim>\<open>keydown\<close> listener of \<^verbatim>\<open>initKeyboardNavigation\<close>, on \<^verbatim>\<open>e.key\<close>.\<close>

definition keydown :: "string \<Rightarrow> page \<Rightarrow> page" where
  "keydown k s =
     (if showQR s then (if k = ''Escape'' then hideQR s else s)
      else if showDetail s then (if k = ''Escape'' then hideDetail s else s)
      else if k = ''ArrowLeft'' \<or> k = ''a'' then navigateLeft s
      else if k = ''ArrowRight'' \<or> k = ''d'' then navigateRight s
      else if k = ''Enter'' \<or> k = '' ''
      then (case current_event s of None \<Rightarrow> s | Some e \<Rightarrow> showDetail_fn (Some e) s)
      else if k = ''Home'' then navigateTo 0 s
      else if k = ''End'' then navigateTo (int (length (events s)) - 1) s
      else s)"

section \<open>The event loop\<close>

text \<open>
  What the browser can deliver to the script. A timer or a response is delivered only while
  it is pending: a cleared interval never fires. The card listener of \<^verbatim>\<open>createCard\<close> gets the
  index of its card.
\<close>

datatype event =
    SocketConnect
  | SocketGesture gesture
  | SocketDisconnect
  | SocketConnectError
  | PollTimeout
  | PollResponse "gesture option"
  | CaptureResponse bool
  | IntervalFire nat
  | EventsResponse "nostr_event list option"
  | KeyDown string
  | ClickDetailClose
  | ClickQrOverlay
  | ClickNavZoneLeft
  | ClickNavZoneRight
  | ClickCard nat

fun step :: "variant \<Rightarrow> event \<Rightarrow> page \<Rightarrow> page" where
  "step v SocketConnect s = on_connect s"
| "step v (SocketGesture g) s = on_gesture v g s"
| "step v SocketDisconnect s = on_disconnect s"
| "step v SocketConnectError s = on_connect_error s"
| "step v PollTimeout s =
     (if pollTimeouts s > 0 then poll (s\<lparr>pollTimeouts := pollTimeouts s - 1\<rparr>) else s)"
| "step v (PollResponse r) s =
     (if pollsInFlight s > 0
      then poll_resume v r (s\<lparr>pollsInFlight := pollsInFlight s - 1\<rparr>) else s)"
| "step v (CaptureResponse ok) s =
     (if capturesInFlight s > 0
      then capturePhoto_resume ok (s\<lparr>capturesInFlight := capturesInFlight s - 1\<rparr>) else s)"
| "step v (IntervalFire h) s = (if h \<in> intervals s then qrTick s else s)"
| "step v (EventsResponse r) s = loadEvents_resume r s"
| "step v (KeyDown k) s = keydown k s"
| "step v ClickDetailClose s = hideDetail s"
| "step v ClickQrOverlay s = hideQR s"
| "step v ClickNavZoneLeft s = navigateLeft s"
| "step v ClickNavZoneRight s = navigateRight s"
| "step v (ClickCard i) s =
     (if i < length (events s)
      then (if int i = currentIndex s then showDetail_fn (Some (events s ! i)) s
            else navigateTo (int i) s)
      else s)"

definition run :: "variant \<Rightarrow> event list \<Rightarrow> page \<Rightarrow> page" where
  "run v es s = fold (step v) es s"

text \<open>The frames of a list, delivered in order.\<close>

definition frames :: "variant \<Rightarrow> gesture list \<Rightarrow> page \<Rightarrow> page" where
  "frames v gs s = fold (handleGesture v) gs s"

section \<open>Vocabulary of the properties\<close>

text \<open>The five case labels of the \<^verbatim>\<open>switch\<close> in \<^verbatim>\<open>handleGesture\<close>.\<close>

definition commands :: "string list" where
  "commands = [''nav_left'', ''nav_right'', ''detail'', ''detail_close'', ''capture'']"

definition is_command :: "string \<Rightarrow> bool" where
  "is_command a = (a \<in> set commands)"

text \<open>
  Inputs for the scenarios: a frame that carries only an action, an item, and a page with
  \<open>n\<close> items at index \<open>i\<close>.
\<close>

definition frame :: "string \<Rightarrow> gesture" where
  "frame a =
     \<lparr> action = a, hand_detected = False, is_fist = False, light_mode = False,
       time_until_dark = 0, face_detected = False, face_count = 0 \<rparr>"

definition item :: nostr_event where
  "item = \<lparr>ev_id = ''id'', ev_pubkey = ''pubkey'', ev_content = ''text''\<rparr>"

definition shelf :: "nat \<Rightarrow> int \<Rightarrow> page" where
  "shelf n i = (initial True True)\<lparr>events := replicate n item, currentIndex := i\<rparr>"

text \<open>
  The QR countdown is the only user of \<^verbatim>\<open>setInterval\<close>: the timers that are active are the
  one whose handle \<^verbatim>\<open>state.qrInterval\<close> holds, if it holds one.
\<close>

definition timer_inv :: "page \<Rightarrow> bool" where
  "timer_inv s = (intervals s = set_option (qrInterval s))"

text \<open>The number of requests to \<^verbatim>\<open>/api/gesture\<close> issued so far.\<close>

definition pollRequests :: "page \<Rightarrow> nat" where
  "pollRequests s = count_list (requests s) GetGesture"

text \<open>
  States for the scenarios, each reached from a page with five items at index 2:
  the QR overlay three ticks after a capture; the page after push connected, dropped, one
  poll failed and push reconnected; the page with a poll in flight when push reconnects;
  the QR overlay just opened; the detail panel just opened.
\<close>

definition opened :: page where
  "opened = run Shop [SocketGesture (frame ''capture''), CaptureResponse True,
                    IntervalFire 1, IntervalFire 1, IntervalFire 1] (shelf 5 2)"

definition reconnected :: page where
  "reconnected =
     run Shop [SocketConnect, SocketDisconnect, PollResponse None, SocketConnect]
       (startGesturePolling True (shelf 5 2))"

definition in_flight :: "variant \<Rightarrow> page" where
  "in_flight v =
     run v [SocketConnect, SocketDisconnect, SocketConnect] (startGesturePolling True (shelf 5 2))"

definition qr_open :: page where
  "qr_open = run Shop [SocketGesture (frame ''capture''), CaptureResponse True] (shelf 5 2)"

definition detail_open :: page where
  "detail_open = run Shop [SocketGesture (frame ''detail'')] (shelf 5 2)"

section \<open>What each function leaves alone\<close>

lemma navigateTo_frame [simp]:
  "events (navigateTo i s) = events s"
  "showDetail (navigateTo i s) = showDetail s"
  "showQR (navigateTo i s) = showQR s"
  "qrCountdown (navigateTo i s) = qrCountdown s"
  "qrInterval (navigateTo i s) = qrInterval s"
  "lastAction (navigateTo i s) = lastAction s"
  "lightMode (navigateTo i s) = lightMode s"
  "timeUntilDark (navigateTo i s) = timeUntilDark s"
  "socket (navigateTo i s) = socket s"
  "useWebSocket (navigateTo i s) = useWebSocket s"
  "detailPanel (navigateTo i s) = detailPanel s"
  "qrOverlay (navigateTo i s) = qrOverlay s"
  "intervals (navigateTo i s) = intervals s"
  "nextHandle (navigateTo i s) = nextHandle s"
  "pollTimeouts (navigateTo i s) = pollTimeouts s"
  "pollsInFlight (navigateTo i s) = pollsInFlight s"
  "capturesInFlight (navigateTo i s) = capturesInFlight s"
  "dispatched (navigateTo i s) = dispatched s"
  by (simp_all add: navigateTo_def Let_def)

lemma navigateLeft_frame [simp]:
  "events (navigateLeft s) = events s"
  "showDetail (navigateLeft s) = showDetail s"
  "showQR (navigateLeft s) = showQR s"
  "qrCountdown (navigateLeft s) = qrCountdown s"
  "qrInterval (navigateLeft s) = qrInterval s"
  "lastAction (navigateLeft s) = lastAction s"
  "lightMode (navigateLeft s) = lightMode s"
  "timeUntilDark (navigateLeft s) = timeUntilDark s"
  "socket (navigateLeft s) = socket s"
  "useWebSocket (navigateLeft s) = useWebSocket s"
  "detailPanel (navigateLeft s) = detailPanel s"
  "qrOverlay (navigateLeft s) = qrOverlay s"
  "intervals (navigateLeft s) = intervals s"
  "nextHandle (navigateLeft s) = nextHandle s"
  "pollTimeouts (navigateLeft s) = pollTimeouts s"
  "pollsInFlight (navigateLeft s) = pollsInFlight s"
  "capturesInFlight (navigateLeft s) = capturesInFlight s"
  "dispatched (navigateLeft s) = dispatched s"
  by (simp_all add: navigateLeft_def)

lemma navigateRight_frame [simp]:
  "events (navigateRight s) = events s"
  "showDetail (navigateRight s) = showDetail s"
  "showQR (navigateRight s) = showQR s"
  "qrCountdown (navigateRight s) = qrCountdown s"
  "qrInterval (navigateRight s) = qrInterval s"
  "lastAction (navigateRight s) = lastAction s"
  "lightMode (navigateRight s) = lightMode s"
  "timeUntilDark (navigateRight s) = timeUntilDark s"
  "socket (navigateRight s) = socket s"
  "useWebSocket (navigateRight s) = useWebSocket s"
  "detailPanel (navigateRight s) = detailPanel s"
  "qrOverlay (navigateRight s) = qrOverlay s"
  "intervals (navigateRight s) = intervals s"
  "nextHandle (navigateRight s) = nextHandle s"
  "pollTimeouts (navigateRight s) = pollTimeouts s"
  "pollsInFlight (navigateRight s) = pollsInFlight s"
  "capturesInFlight (navigateRight s) = capturesInFlight s"
  "dispatched (navigateRight s) = dispatched s"
  by (simp_all add: navigateRight_def)

lemma updateThemeMode_shop_frame [simp]:
  "events (updateThemeMode_shop a b s) = events s"
  "currentIndex (updateThemeMode_shop a b s) = currentIndex s"
  "showDetail (updateThemeMode_shop a b s) = showDetail s"
  "showQR (updateThemeMode_shop a b s) = showQR s"
  "qrCountdown (updateThemeMode_shop a b s) = qrCountdown s"
  "qrInterval (updateThemeMode_shop a b s) = qrInterval s"
  "lastAction (updateThemeMode_shop a b s) = lastAction s"
  "socket (updateThemeMode_shop a b s) = socket s"
  "useWebSocket (updateThemeMode_shop a b s) = useWebSocket s"
  "detailPanel (updateThemeMode_shop a b s) = detailPanel s"
  "qrOverlay (updateThemeMode_shop a b s) = qrOverlay s"
  "intervals (updateThemeMode_shop a b s) = intervals s"
  "nextHandle (updateThemeMode_shop a b s) = nextHandle s"
  "pollTimeouts (updateThemeMode_shop a b s) = pollTimeouts s"
  "pollsInFlight (updateThemeMode_shop a b s) = pollsInFlight s"
  "capturesInFlight (updateThemeMode_shop a b s) = capturesInFlight s"
  "requests (updateThemeMode_shop a b s) = requests s"
  "dispatched (updateThemeMode_shop a b s) = dispatched s"
  by (simp_all add: updateThemeMode_shop_def Let_def)

lemma updateThemeMode_frame [simp]:
  "events (updateThemeMode a b c s) = events s"
  "currentIndex (updateThemeMode a b c s) = currentIndex s"
  "showDetail (updateThemeMode a b c s) = showDetail s"
  "showQR (updateThemeMode a b c s) = showQR s"
  "qrCountdown (updateThemeMode a b c s) = qrCountdown s"
  "qrInterval (updateThemeMode a b c s) = qrInterval s"
  "lastAction (updateThemeMode a b c s) = lastAction s"
  "socket (updateThemeMode a b c s) = socket s"
  "useWebSocket (updateThemeMode a b c s) = useWebSocket s"
  "detailPanel (updateThemeMode a b c s) = detailPanel s"
  "qrOverlay (updateThemeMode a b c s) = qrOverlay s"
  "intervals (updateThemeMode a b c s) = intervals s"
  "nextHandle (updateThemeMode a b c s) = nextHandle s"
  "pollTimeouts (updateThemeMode a b c s) = pollTimeouts s"
  "pollsInFlight (updateThemeMode a b c s) = pollsInFlight s"
  "capturesInFlight (updateThemeMode a b c s) = capturesInFlight s"
  "requests (updateThemeMode a b c s) = requests s"
  "dispatched (updateThemeMode a b c s) = dispatched s"
  by (simp_all add: updateThemeMode_def Let_def)

lemma updateFaceDetection_frame [simp]:
  "events (updateFaceDetection a b c s) = events s"
  "currentIndex (updateFaceDetection a b c s) = currentIndex s"
  "showDetail (updateFaceDetection a b c s) = showDetail s"
  "showQR (updateFaceDetection a b c s) = showQR s"
  "qrCountdown (updateFaceDetection a b c s) = qrCountdown s"
  "qrInterval (updateFaceDetection a b c s) = qrInterval s"
  "lastAction (updateFaceDetection a b c s) = lastAction s"
  "lightMode (updateFaceDetection a b c s) = lightMode s"
  "timeUntilDark (updateFaceDetection a b c s) = timeUntilDark s"
  "socket (updateFaceDetection a b c s) = socket s"
  "useWebSocket (updateFaceDetection a b c s) = useWebSocket s"
  "detailPanel (updateFaceDetection a b c s) = detailPanel s"
  "qrOverlay (updateFaceDetection a b c s) = qrOverlay s"
  "intervals (updateFaceDetection a b c s) = intervals s"
  "nextHandle (updateFaceDetection a b c s) = nextHandle s"
  "pollTimeouts (updateFaceDetection a b c s) = pollTimeouts s"
  "pollsInFlight (updateFaceDetection a b c s) = pollsInFlight s"
  "capturesInFlight (updateFaceDetection a b c s) = capturesInFlight s"
  "requests (updateFaceDetection a b c s) = requests s"
  "dispatched (updateFaceDetection a b c s) = dispatched s"
  by (simp_all add: updateFaceDetection_def)

lemma showDetail_fn_frame [simp]:
  "events (showDetail_fn ev s) = events s"
  "currentIndex (showDetail_fn ev s) = currentIndex s"
  "showQR (showDetail_fn ev s) = showQR s"
  "qrCountdown (showDetail_fn ev s) = qrCountdown s"
  "qrInterval (showDetail_fn ev s) = qrInterval s"
  "lastAction (showDetail_fn ev s) = lastAction s"
  "lightMode (showDetail_fn ev s) = lightMode s"
  "timeUntilDark (showDetail_fn ev s) = timeUntilDark s"
  "socket (showDetail_fn ev s) = socket s"
  "useWebSocket (showDetail_fn ev s) = useWebSocket s"
  "detailPanel (showDetail_fn ev s) = detailPanel s"
  "qrOverlay (showDetail_fn ev s) = qrOverlay s"
  "intervals (showDetail_fn ev s) = intervals s"
  "nextHandle (showDetail_fn ev s) = nextHandle s"
  "pollTimeouts (showDetail_fn ev s) = pollTimeouts s"
  "pollsInFlight (showDetail_fn ev s) = pollsInFlight s"
  "capturesInFlight (showDetail_fn ev s) = capturesInFlight s"
  "requests (showDetail_fn ev s) = requests s"
  "dispatched (showDetail_fn ev s) = dispatched s"
  by (simp_all add: showDetail_fn_def split: option.splits)

lemma hideDetail_frame [simp]:
  "events (hideDetail s) = events s"
  "currentIndex (hideDetail s) = currentIndex s"
  "showQR (hideDetail s) = showQR s"
  "qrCountdown (hideDetail s) = qrCountdown s"
  "qrInterval (hideDetail s) = qrInterval s"
  "lastAction (hideDetail s) = lastAction s"
  "lightMode (hideDetail s) = lightMode s"
  "timeUntilDark (hideDetail s) = timeUntilDark s"
  "socket (hideDetail s) = socket s"
  "useWebSocket (hideDetail s) = useWebSocket s"
  "detailPanel (hideDetail s) = detailPanel s"
  "qrOverlay (hideDetail s) = qrOverlay s"
  "intervals (hideDetail s) = intervals s"
  "nextHandle (hideDetail s) = nextHandle s"
  "pollTimeouts (hideDetail s) = pollTimeouts s"
  "pollsInFlight (hideDetail s) = pollsInFlight s"
  "capturesInFlight (hideDetail s) = capturesInFlight s"
  "requests (hideDetail s) = requests s"
  "dispatched (hideDetail s) = dispatched s"
  by (simp_all add: hideDetail_def)

lemma capturePhoto_frame [simp]:
  "events (capturePhoto s) = events s"
  "currentIndex (capturePhoto s) = currentIndex s"
  "showDetail (capturePhoto s) = showDetail s"
  "showQR (capturePhoto s) = showQR s"
  "qrCountdown (capturePhoto s) = qrCountdown s"
  "qrInterval (capturePhoto s) = qrInterval s"
  "lastAction (capturePhoto s) = lastAction s"
  "lightMode (capturePhoto s) = lightMode s"
  "timeUntilDark (capturePhoto s) = timeUntilDark s"
  "socket (capturePhoto s) = socket s"
  "useWebSocket (capturePhoto s) = useWebSocket s"
  "detailPanel (capturePhoto s) = detailPanel s"
  "qrOverlay (capturePhoto s) = qrOverlay s"
  "intervals (capturePhoto s) = intervals s"
  "nextHandle (capturePhoto s) = nextHandle s"
  "pollTimeouts (capturePhoto s) = pollTimeouts s"
  "pollsInFlight (capturePhoto s) = pollsInFlight s"
  "dispatched (capturePhoto s) = dispatched s"
  by (simp_all add: capturePhoto_def)

lemma hideQR_frame [simp]:
  "events (hideQR s) = events s"
  "currentIndex (hideQR s) = currentIndex s"
  "showDetail (hideQR s) = showDetail s"
  "qrCountdown (hideQR s) = qrCountdown s"
  "lastAction (hideQR s) = lastAction s"
  "lightMode (hideQR s) = lightMode s"
  "timeUntilDark (hideQR s) = timeUntilDark s"
  "socket (hideQR s) = socket s"
  "useWebSocket (hideQR s) = useWebSocket s"
  "detailPanel (hideQR s) = detailPanel s"
  "qrOverlay (hideQR s) = qrOverlay s"
  "nextHandle (hideQR s) = nextHandle s"
  "pollTimeouts (hideQR s) = pollTimeouts s"
  "pollsInFlight (hideQR s) = pollsInFlight s"
  "capturesInFlight (hideQR s) = capturesInFlight s"
  "requests (hideQR s) = requests s"
  "dispatched (hideQR s) = dispatched s"
  by (simp_all add: hideQR_def clearInterval_def Let_def split: option.splits)

lemma showQR_fn_frame [simp]:
  "events (showQR_fn s) = events s"
  "currentIndex (showQR_fn s) = currentIndex s"
  "showDetail (showQR_fn s) = showDetail s"
  "lastAction (showQR_fn s) = lastAction s"
  "lightMode (showQR_fn s) = lightMode s"
  "timeUntilDark (showQR_fn s) = timeUntilDark s"
  "socket (showQR_fn s) = socket s"
  "useWebSocket (showQR_fn s) = useWebSocket s"
  "detailPanel (showQR_fn s) = detailPanel s"
  "qrOverlay (showQR_fn s) = qrOverlay s"
  "pollTimeouts (showQR_fn s) = pollTimeouts s"
  "pollsInFlight (showQR_fn s) = pollsInFlight s"
  "capturesInFlight (showQR_fn s) = capturesInFlight s"
  "requests (showQR_fn s) = requests s"
  "dispatched (showQR_fn s) = dispatched s"
  by (simp_all add: showQR_fn_def clearInterval_def setInterval_def Let_def split: option.splits)

lemma qrTick_frame [simp]:
  "events (qrTick s) = events s"
  "currentIndex (qrTick s) = currentIndex s"
  "showDetail (qrTick s) = showDetail s"
  "lastAction (qrTick s) = lastAction s"
  "lightMode (qrTick s) = lightMode s"
  "timeUntilDark (qrTick s) = timeUntilDark s"
  "socket (qrTick s) = socket s"
  "useWebSocket (qrTick s) = useWebSocket s"
  "detailPanel (qrTick s) = detailPanel s"
  "qrOverlay (qrTick s) = qrOverlay s"
  "nextHandle (qrTick s) = nextHandle s"
  "pollTimeouts (qrTick s) = pollTimeouts s"
  "pollsInFlight (qrTick s) = pollsInFlight s"
  "capturesInFlight (qrTick s) = capturesInFlight s"
  "requests (qrTick s) = requests s"
  "dispatched (qrTick s) = dispatched s"
  by (simp_all add: qrTick_def Let_def)

lemma poll_frame [simp]:
  "events (poll s) = events s"
  "currentIndex (poll s) = currentIndex s"
  "showDetail (poll s) = showDetail s"
  "showQR (poll s) = showQR s"
  "qrCountdown (poll s) = qrCountdown s"
  "qrInterval (poll s) = qrInterval s"
  "lastAction (poll s) = lastAction s"
  "lightMode (poll s) = lightMode s"
  "timeUntilDark (poll s) = timeUntilDark s"
  "socket (poll s) = socket s"
  "useWebSocket (poll s) = useWebSocket s"
  "detailPanel (poll s) = detailPanel s"
  "qrOverlay (poll s) = qrOverlay s"
  "intervals (poll s) = intervals s"
  "nextHandle (poll s) = nextHandle s"
  "pollTimeouts (poll s) = pollTimeouts s"
  "capturesInFlight (poll s) = capturesInFlight s"
  "dispatched (poll s) = dispatched s"
  by (simp_all add: poll_def)

lemma startPollingFallback_frame [simp]:
  "events (startPollingFallback s) = events s"
  "currentIndex (startPollingFallback s) = currentIndex s"
  "showDetail (startPollingFallback s) = showDetail s"
  "showQR (startPollingFallback s) = showQR s"
  "qrCountdown (startPollingFallback s) = qrCountdown s"
  "qrInterval (startPollingFallback s) = qrInterval s"
  "lastAction (startPollingFallback s) = lastAction s"
  "lightMode (startPollingFallback s) = lightMode s"
  "timeUntilDark (startPollingFallback s) = timeUntilDark s"
  "socket (startPollingFallback s) = socket s"
  "useWebSocket (startPollingFallback s) = useWebSocket s"
  "detailPanel (startPollingFallback s) = detailPanel s"
  "qrOverlay (startPollingFallback s) = qrOverlay s"
  "intervals (startPollingFallback s) = intervals s"
  "nextHandle (startPollingFallback s) = nextHandle s"
  "pollTimeouts (startPollingFallback s) = pollTimeouts s"
  "capturesInFlight (startPollingFallback s) = capturesInFlight s"
  "dispatched (startPollingFallback s) = dispatched s"
  by (simp_all add: startPollingFallback_def)

lemma handleGesture_frame [simp]:
  "events (handleGesture v g s) = events s"
  "showQR (handleGesture v g s) = showQR s"
  "qrCountdown (handleGesture v g s) = qrCountdown s"
  "qrInterval (handleGesture v g s) = qrInterval s"
  "socket (handleGesture v g s) = socket s"
  "useWebSocket (handleGesture v g s) = useWebSocket s"
  "detailPanel (handleGesture v g s) = detailPanel s"
  "qrOverlay (handleGesture v g s) = qrOverlay s"
  "intervals (handleGesture v g s) = intervals s"
  "nextHandle (handleGesture v g s) = nextHandle s"
  "pollTimeouts (handleGesture v g s) = pollTimeouts s"
  "pollsInFlight (handleGesture v g s) = pollsInFlight s"
  by (simp_all add: handleGesture_def Let_def split: variant.splits)

lemma handleGesture_lastAction [simp]: "lastAction (handleGesture v g s) = action g"
  by (cases v) (simp_all add: handleGesture_def Let_def)

lemma handleGesture_dispatched:
  "dispatched (handleGesture v g s) =
     dispatched s @ (if action g = lastAction s then [] else filter is_command [action g])"
  by (cases v) (simp_all add: handleGesture_def Let_def is_command_def commands_def)

lemma handleGesture_unchanged:
  assumes "action g = lastAction s"
  shows "currentIndex (handleGesture v g s) = currentIndex s"
    and "requests (handleGesture v g s) = requests s"
    and "capturesInFlight (handleGesture v g s) = capturesInFlight s"
    and "showDetail (handleGesture v g s) = (showDetail s \<and> \<not> is_fist g)"
  using assms by (simp_all add: handleGesture_def Let_def hideDetail_def split: variant.splits)

lemma handleGesture_lightMode:
  "lightMode (handleGesture Faces g s) =
     effectiveLightMode (light_mode g) (time_until_dark g) (hand_detected g)"
  "lightMode (handleGesture Shop g s) = light_mode g"
  "timeUntilDark (handleGesture v g s) = time_until_dark g"
  by (auto simp add: handleGesture_def Let_def updateThemeMode_def updateThemeMode_shop_def
        split: variant.splits)

lemma handleGesture_fist: "is_fist g \<Longrightarrow> \<not> showDetail (handleGesture v g s)"
  by (simp add: handleGesture_def Let_def hideDetail_def split: variant.splits)

lemma handleGesture_nav_left:
  assumes "\<not> showDetail s" "\<not> showQR s" "action g \<noteq> lastAction s" "action g = ''nav_left''"
  shows "currentIndex (handleGesture v g s) = currentIndex (navigateRight s)"
    and "requests (handleGesture v g s) = requests (navigateRight s)"
  using assms
  by (simp_all add: handleGesture_def Let_def hideDetail_def navigateRight_def navigateTo_def
        split: variant.splits)

lemma handleGesture_nav_right:
  assumes "\<not> showDetail s" "\<not> showQR s" "action g \<noteq> lastAction s" "action g = ''nav_right''"
  shows "currentIndex (handleGesture v g s) = currentIndex (navigateLeft s)"
    and "requests (handleGesture v g s) = requests (navigateLeft s)"
  using assms
  by (simp_all add: handleGesture_def Let_def hideDetail_def navigateLeft_def navigateTo_def
        split: variant.splits)

lemma handleGesture_overlay_blocks_nav:
  assumes "showDetail s \<or> showQR s"
  shows "currentIndex (handleGesture v g s) = currentIndex s"
  using assms
  by (auto simp add: handleGesture_def Let_def split: variant.splits)

section \<open>Navigation: the index stays in range\<close>

lemma navigateTo_in_range: "index_in_range (navigateTo i s)"
  by (cases "events s") (auto simp: index_in_range_def navigateTo_def Let_def)

lemma call_nav_in_range: "index_in_range s \<Longrightarrow> index_in_range (call_nav s c)"
  by (cases c) (simp_all add: navigateTo_in_range navigateLeft_def navigateRight_def)

lemma foldl_call_nav_in_range:
  "index_in_range s \<Longrightarrow> index_in_range (foldl call_nav s cs)"
  by (induction cs arbitrary: s) (simp_all add: call_nav_in_range)

section \<open>The countdown timer\<close>

lemma hideQR_timers:
  "timer_inv s \<Longrightarrow> intervals (hideQR s) = {} \<and> qrInterval (hideQR s) = None"
  by (auto simp add: timer_inv_def hideQR_def clearInterval_def Let_def split: option.splits)

lemma hideQR_showQR [simp]: "showQR (hideQR s) = False"
  by (simp add: hideQR_def clearInterval_def Let_def split: option.splits)

lemma showQR_fn_timers:
  "timer_inv s \<Longrightarrow> qrOverlay s \<Longrightarrow>
     intervals (showQR_fn s) = {nextHandle s} \<and> qrInterval (showQR_fn s) = Some (nextHandle s)"
  by (auto simp add: timer_inv_def showQR_fn_def clearInterval_def setInterval_def Let_def
        split: option.splits)

lemma showQR_fn_opens:
  "qrOverlay s \<Longrightarrow> showQR (showQR_fn s) \<and> qrCountdown (showQR_fn s) = QR_DISPLAY_TIME"
  by (simp add: showQR_fn_def clearInterval_def setInterval_def Let_def split: option.splits)

lemma timer_inv_hideQR: "timer_inv s \<Longrightarrow> timer_inv (hideQR s)"
  using hideQR_timers [of s] by (simp add: timer_inv_def)

lemma timer_inv_showQR_fn: "timer_inv s \<Longrightarrow> timer_inv (showQR_fn s)"
  using showQR_fn_timers [of s] by (cases "qrOverlay s") (simp_all add: timer_inv_def showQR_fn_def)

lemma timer_inv_qrTick: "timer_inv s \<Longrightarrow> timer_inv (qrTick s)"
proof -
  assume a: "timer_inv s"
  have "timer_inv (s\<lparr>qrCountdown := qrCountdown s - 1\<rparr>)"
    using a by (simp add: timer_inv_def)
  then show ?thesis
    by (simp add: qrTick_def Let_def timer_inv_hideQR)
qed

lemma keydown_timer_inv: "timer_inv s \<Longrightarrow> timer_inv (keydown k s)"
proof (cases "showQR s")
  case True
  assume "timer_inv s"
  then show ?thesis using True by (simp add: keydown_def timer_inv_hideQR)
next
  case False
  assume "timer_inv s"
  then show ?thesis using False
    by (simp add: keydown_def timer_inv_def split: option.splits)
qed

lemma timer_inv_step: "timer_inv s \<Longrightarrow> timer_inv (step v e s)"
proof (cases e)
  case (CaptureResponse ok)
  assume a: "timer_inv s"
  have "timer_inv (s\<lparr>capturesInFlight := capturesInFlight s - 1\<rparr>)"
    using a by (simp add: timer_inv_def)
  then show ?thesis
    using a CaptureResponse by (simp add: capturePhoto_resume_def timer_inv_showQR_fn)
next
  case (IntervalFire h)
  assume "timer_inv s"
  then show ?thesis using IntervalFire by (simp add: timer_inv_qrTick)
next
  case (KeyDown k)
  assume "timer_inv s"
  then show ?thesis using KeyDown by (simp add: keydown_timer_inv)
next
  case ClickQrOverlay
  assume "timer_inv s"
  then show ?thesis using ClickQrOverlay by (simp add: timer_inv_hideQR)
qed (simp_all add: timer_inv_def on_connect_def on_gesture_def on_disconnect_def
      on_connect_error_def poll_resume_def loadEvents_resume_def Let_def split: option.splits)

lemma timer_inv_run: "timer_inv s \<Longrightarrow> timer_inv (run v es s)"
  unfolding run_def by (induction es arbitrary: s) (simp_all add: timer_inv_step)

lemma timer_inv_initial: "timer_inv (initial dp qo)"
  by (simp add: timer_inv_def initial_def)

lemma quiet_step:
  assumes "intervals s = {}" "\<not> showQR s" "e \<noteq> CaptureResponse True"
  shows "intervals (step v e s) = {} \<and> \<not> showQR (step v e s) \<and>
         qrCountdown (step v e s) = qrCountdown s"
proof (cases e)
  case (CaptureResponse ok)
  then have "\<not> ok" using assms(3) by simp
  then show ?thesis using assms CaptureResponse by (simp add: capturePhoto_resume_def)
next
  case (KeyDown k)
  then show ?thesis using assms by (simp add: keydown_def split: option.splits)
next
  case ClickQrOverlay
  then show ?thesis using assms
    by (simp add: hideQR_def clearInterval_def Let_def split: option.splits)
qed (use assms in \<open>simp_all add: on_connect_def on_gesture_def on_disconnect_def
      on_connect_error_def poll_resume_def loadEvents_resume_def Let_def split: option.splits\<close>)

lemma quiet_run:
  assumes "intervals s = {}" "\<not> showQR s" "CaptureResponse True \<notin> set es"
  shows "intervals (run v es s) = {} \<and> \<not> showQR (run v es s) \<and>
         qrCountdown (run v es s) = qrCountdown s"
  using assms unfolding run_def
proof (induction es arbitrary: s)
  case Nil
  then show ?case by simp
next
  case (Cons e es)
  have e: "e \<noteq> CaptureResponse True" and es: "CaptureResponse True \<notin> set es"
    using Cons.prems(3) by auto
  have q: "intervals (step v e s) = {} \<and> \<not> showQR (step v e s) \<and>
         qrCountdown (step v e s) = qrCountdown s"
    using quiet_step [OF Cons.prems(1) Cons.prems(2) e] .
  show ?case
    using Cons.IH [of "step v e s"] q es by simp
qed

lemma opened_facts:
  "timer_inv opened" "showQR opened" "qrCountdown opened = 7" "intervals opened = {1}"
  "\<not> showQR (run Shop (replicate 7 (IntervalFire 1)) opened)"
  "qrCountdown (run Shop (replicate 7 (IntervalFire 1)) opened) = 0"
  "qrOverlay opened" "nextHandle opened = 2"
  by code_simp+

section \<open>Poll requests\<close>

lemma pollRequests_eq: "requests t = requests s \<Longrightarrow> pollRequests t = pollRequests s"
  by (simp add: pollRequests_def)

lemma pollRequests_navigateTo [simp]: "pollRequests (navigateTo i s) = pollRequests s"
  by (simp add: pollRequests_def navigateTo_def Let_def)

lemma pollRequests_navigateLeft [simp]: "pollRequests (navigateLeft s) = pollRequests s"
  by (simp add: navigateLeft_def)

lemma pollRequests_navigateRight [simp]: "pollRequests (navigateRight s) = pollRequests s"
  by (simp add: navigateRight_def)

lemma pollRequests_capturePhoto [simp]: "pollRequests (capturePhoto s) = pollRequests s"
  by (simp add: pollRequests_def capturePhoto_def)

lemma pollRequests_updates [simp]:
  "pollRequests (s\<lparr>lastAction := a\<rparr>) = pollRequests s"
  "pollRequests (s\<lparr>dispatched := d\<rparr>) = pollRequests s"
  "pollRequests (s\<lparr>pollTimeouts := n\<rparr>) = pollRequests s"
  "pollRequests (s\<lparr>pollsInFlight := n\<rparr>) = pollRequests s"
  "pollRequests (s\<lparr>capturesInFlight := n\<rparr>) = pollRequests s"
  "pollRequests (s\<lparr>useWebSocket := b\<rparr>) = pollRequests s"
  "pollRequests (s\<lparr>socket := b\<rparr>) = pollRequests s"
  "pollRequests (s\<lparr>events := es\<rparr>) = pollRequests s"
  by (simp_all add: pollRequests_def)

lemma pollRequests_frames [simp]:
  "pollRequests (updateThemeMode_shop a b s) = pollRequests s"
  "pollRequests (updateThemeMode a b c s) = pollRequests s"
  "pollRequests (updateFaceDetection a' b' c s) = pollRequests s"
  "pollRequests (showDetail_fn ev s) = pollRequests s"
  "pollRequests (hideDetail s) = pollRequests s"
  "pollRequests (hideQR s) = pollRequests s"
  "pollRequests (showQR_fn s) = pollRequests s"
  "pollRequests (qrTick s) = pollRequests s"
  by (simp_all add: pollRequests_def)

lemma pollRequests_handleGesture [simp]:
  "pollRequests (handleGesture v g s) = pollRequests s"
  by (simp add: handleGesture_def Let_def split: variant.splits)

lemma pollRequests_poll:
  "pollRequests (poll s) = (if useWebSocket s then pollRequests s else Suc (pollRequests s))"
  by (simp add: pollRequests_def poll_def)

lemma push_step:
  assumes "useWebSocket s" "e \<noteq> SocketDisconnect" "e \<noteq> SocketConnectError"
  shows "useWebSocket (step v e s) \<and> pollRequests (step v e s) = pollRequests s \<and>
         pollTimeouts (step v e s) \<le> pollTimeouts s \<and> pollsInFlight (step v e s) \<le> pollsInFlight s"
proof (cases e)
  case (KeyDown k)
  then show ?thesis using assms by (simp add: keydown_def split: option.splits)
next
  case (PollResponse r)
  then show ?thesis using assms by (simp add: poll_resume_def Let_def split: option.splits)
next
  case PollTimeout
  then show ?thesis using assms by (simp add: poll_def)
qed (use assms in \<open>simp_all add: on_connect_def on_gesture_def capturePhoto_resume_def
      loadEvents_resume_def Let_def split: option.splits\<close>)

lemma push_run:
  assumes "useWebSocket s" "SocketDisconnect \<notin> set es" "SocketConnectError \<notin> set es"
  shows "useWebSocket (run v es s) \<and> pollRequests (run v es s) = pollRequests s \<and>
         pollTimeouts (run v es s) \<le> pollTimeouts s \<and> pollsInFlight (run v es s) \<le> pollsInFlight s"
  using assms unfolding run_def
proof (induction es arbitrary: s)
  case Nil
  then show ?case by simp
next
  case (Cons e es)
  have e: "e \<noteq> SocketDisconnect" "e \<noteq> SocketConnectError"
    and es: "SocketDisconnect \<notin> set es" "SocketConnectError \<notin> set es"
    using Cons.prems by auto
  have st: "useWebSocket (step v e s) \<and> pollRequests (step v e s) = pollRequests s \<and>
         pollTimeouts (step v e s) \<le> pollTimeouts s \<and> pollsInFlight (step v e s) \<le> pollsInFlight s"
    using push_step [OF Cons.prems(1) e] .
  show ?case
    using Cons.IH [of "step v e s"] st es by simp
qed

lemma pollRequests_keydown [simp]: "pollRequests (keydown k s) = pollRequests s"
  by (simp add: keydown_def split: option.splits)

lemma pollRequests_poll_resume [simp]: "pollRequests (poll_resume v r s) = pollRequests s"
  by (simp add: poll_resume_def Let_def split: option.splits)

lemma pollRequests_other_step:
  assumes "e \<noteq> PollTimeout" "e \<noteq> SocketDisconnect" "e \<noteq> SocketConnectError"
  shows "pollRequests (step v e s) = pollRequests s"
  using assms
  by (cases e) (simp_all add: on_connect_def on_gesture_def capturePhoto_resume_def
      loadEvents_resume_def Let_def split: option.splits)

lemma poll_request_needs_flag_off:
  assumes "pollRequests (step v e s) \<noteq> pollRequests s"
  shows "\<not> useWebSocket (step v e s)"
proof -
  consider "e = PollTimeout" | "e = SocketDisconnect" | "e = SocketConnectError"
    using assms pollRequests_other_step [of e v s] by blast
  then show ?thesis
  proof cases
    case 1
    then show ?thesis using assms
      by (simp add: pollRequests_poll split: if_splits)
  next
    case 2
    then show ?thesis
      by (simp add: on_disconnect_def)
  next
    case 3
    then show ?thesis
      by (simp add: on_connect_error_def Let_def)
  qed
qed

lemma reconnected_facts:
  "useWebSocket reconnected" "pollTimeouts reconnected = 1" "requests reconnected = [GetGesture]"
  "pollRequests reconnected = 1"
  "pollRequests (step Shop SocketDisconnect reconnected) = 2"
  "\<not> useWebSocket (step Shop SocketDisconnect reconnected)"
  "requests (run Shop [PollTimeout, SocketGesture (frame ''nav_left''), PollTimeout] reconnected)
     = [GetGesture, PostSetIndex 3]"
  by code_simp+

lemma in_flight_facts:
  "useWebSocket (in_flight Shop)" "pollsInFlight (in_flight Shop) = 1"
  "currentIndex (in_flight Shop) = 2" "requests (in_flight Shop) = [GetGesture]"
  "currentIndex (step Shop (PollResponse (Some (frame ''nav_left''))) (in_flight Shop)) = 3"
  "lastAction (step Shop (PollResponse (Some (frame ''nav_left''))) (in_flight Shop)) = ''nav_left''"
  "requests (step Shop (PollResponse (Some (frame ''nav_left''))) (in_flight Shop))
     = [GetGesture, PostSetIndex 3]"
  "useWebSocket (in_flight Faces)" "pollsInFlight (in_flight Faces) = 1"
  "currentIndex (in_flight Faces) = 2"
  "currentIndex (step Faces (PollResponse (Some (frame ''nav_left''))) (in_flight Faces)) = 3"
  by code_simp+

section \<open>The two overlays\<close>

lemma both_overlays_open:
  "showDetail (run Shop [EventsResponse (Some [item]), SocketGesture (frame ''detail''),
      SocketGesture (frame ''capture''), CaptureResponse True] (initial True True))"
  "showQR (run Shop [EventsResponse (Some [item]), SocketGesture (frame ''detail''),
      SocketGesture (frame ''capture''), CaptureResponse True] (initial True True))"
  "showDetail (run Faces [EventsResponse (Some [item]), SocketGesture (frame ''detail''),
      SocketGesture (frame ''capture''), CaptureResponse True] (initial True True))"
  "showQR (run Faces [EventsResponse (Some [item]), SocketGesture (frame ''detail''),
      SocketGesture (frame ''capture''), CaptureResponse True] (initial True True))"
  by code_simp+

lemma handleGesture_under_qr:
  assumes "showQR s"
  shows "showDetail (handleGesture v g s) \<Longrightarrow> showDetail s"
    and "capturesInFlight (handleGesture v g s) = capturesInFlight s"
    and "requests (handleGesture v g s) = requests s"
  using assms
  by (auto simp add: handleGesture_def Let_def hideDetail_def split: variant.splits if_splits)

lemma handleGesture_detail_under_qr:
  assumes "showQR s" "action g = ''detail''"
  shows "showDetail (handleGesture v g s) = (showDetail s \<and> \<not> is_fist g)"
  using assms
  by (auto simp add: handleGesture_def Let_def hideDetail_def split: variant.splits)

lemma capture_over_detail:
  assumes "showDetail s" "\<not> showQR s" "qrOverlay s" "action g = ''capture''"
    "action g \<noteq> lastAction s" "\<not> is_fist g"
  shows "showDetail (step v (CaptureResponse True) (handleGesture v g s))"
    and "showQR (step v (CaptureResponse True) (handleGesture v g s))"
    and "requests (handleGesture v g s) = requests s @ [PostCapture]"
proof -
  have d: "showDetail (handleGesture v g s)"
    and c: "capturesInFlight (handleGesture v g s) = Suc (capturesInFlight s)"
    and r: "requests (handleGesture v g s) = requests s @ [PostCapture]"
    using assms
    by (simp_all add: handleGesture_def Let_def capturePhoto_def split: variant.splits)
  show "requests (handleGesture v g s) = requests s @ [PostCapture]" by (rule r)
  show "showDetail (step v (CaptureResponse True) (handleGesture v g s))"
    using d c by (simp add: capturePhoto_resume_def)
  show "showQR (step v (CaptureResponse True) (handleGesture v g s))"
    using c assms(3) showQR_fn_opens [of "(handleGesture v g s)\<lparr>capturesInFlight := capturesInFlight s\<rparr>"]
    by (simp add: capturePhoto_resume_def)
qed

lemma qr_open_facts:
  "showQR qr_open" "\<not> showDetail qr_open" "current_event qr_open = Some item"
  "detailPanel qr_open"
  "lastAction qr_open = ''capture''"
  "showDetail detail_open" "\<not> showQR detail_open" "qrOverlay detail_open"
  "lastAction detail_open = ''detail''"
  by code_simp+

section \<open>Scenario A\<close>

lemma scenario_A:
  "currentIndex (frames Shop [frame ''none'', frame ''nav_left'', frame ''nav_left''] (shelf 5 2)) = 3"
  "requests (frames Shop [frame ''none'', frame ''nav_left'', frame ''nav_left''] (shelf 5 2))
     = [PostSetIndex 3]"
  "currentIndex (frames Faces [frame ''none'', frame ''nav_left'', frame ''nav_left''] (shelf 5 2)) = 3"
  "requests (frames Faces [frame ''none'', frame ''nav_left'', frame ''nav_left''] (shelf 5 2))
     = [PostSetIndex 3]"
  by code_simp+

section \<open>The edge detector\<close>

lemma filter_remdups_adj_head:
  "filter P (remdups_adj (a # xs)) = filter P [a] @ filter P (tl (remdups_adj (a # xs)))"
proof (cases "remdups_adj (a # xs)")
  case Nil
  then show ?thesis by (simp add: remdups_adj_Nil_iff)
next
  case (Cons y ys)
  have "hd (remdups_adj (a # xs)) = a"
    by (simp only: hd_remdups_adj list.sel)
  with Cons have "y = a" by simp
  with Cons show ?thesis by simp
qed

lemma frames_Cons: "frames v (g # gs) s = frames v gs (handleGesture v g s)"
  by (simp add: frames_def)

lemma frames_dispatched:
  "dispatched (frames v gs s) =
     dispatched s @ filter is_command (tl (remdups_adj (lastAction s # map action gs)))"
proof (induction gs arbitrary: s)
  case Nil
  show ?case by (simp add: frames_def)
next
  case (Cons g gs)
  show ?case
  proof (cases "action g = lastAction s")
    case True
    then show ?thesis
      by (simp add: frames_Cons Cons.IH handleGesture_dispatched)
  next
    case False
    have "tl (remdups_adj (lastAction s # map action (g # gs)))
            = remdups_adj (action g # map action gs)"
      using False by simp
    then show ?thesis
      using False
      by (simp only: frames_Cons Cons.IH handleGesture_dispatched handleGesture_lastAction
            filter_remdups_adj_head [of is_command "action g"] if_False append_assoc)
  qed
qed

lemma handleGesture_changed_nav_left:
  assumes "action g \<noteq> lastAction s" "action g = ''nav_left''"
  shows "currentIndex (handleGesture v g s) =
           currentIndex (if \<not> showDetail s \<and> \<not> showQR s then navigateRight s else s)"
    and "requests (handleGesture v g s) =
           requests (if \<not> showDetail s \<and> \<not> showQR s then navigateRight s else s)"
    and "capturesInFlight (handleGesture v g s) = capturesInFlight s"
    and "showDetail (handleGesture v g s) = (showDetail s \<and> \<not> is_fist g)"
  using assms
  by (auto simp add: handleGesture_def Let_def hideDetail_def navigateRight_def navigateTo_def
        split: variant.splits)

lemma handleGesture_changed_nav_right:
  assumes "action g \<noteq> lastAction s" "action g = ''nav_right''"
  shows "currentIndex (handleGesture v g s) =
           currentIndex (if \<not> showDetail s \<and> \<not> showQR s then navigateLeft s else s)"
    and "requests (handleGesture v g s) =
           requests (if \<not> showDetail s \<and> \<not> showQR s then navigateLeft s else s)"
    and "capturesInFlight (handleGesture v g s) = capturesInFlight s"
    and "showDetail (handleGesture v g s) = (showDetail s \<and> \<not> is_fist g)"
  using assms
  by (auto simp add: handleGesture_def Let_def hideDetail_def navigateLeft_def navigateTo_def
        split: variant.splits)

lemma handleGesture_changed_detail:
  assumes "action g \<noteq> lastAction s" "action g = ''detail''"
  shows "showDetail (handleGesture v g s) =
           (showDetail (if \<not> showQR s \<and> current_event s \<noteq> None
                        then showDetail_fn (current_event s) s else s) \<and> \<not> is_fist g)"
    and "currentIndex (handleGesture v g s) = currentIndex s"
    and "requests (handleGesture v g s) = requests s"
    and "capturesInFlight (handleGesture v g s) = capturesInFlight s"
  using assms
  by (auto simp add: handleGesture_def Let_def hideDetail_def showDetail_fn_def current_event_def
        split: variant.splits option.splits)

lemma handleGesture_changed_detail_close:
  assumes "action g \<noteq> lastAction s" "action g = ''detail_close''"
  shows "showDetail (handleGesture v g s) = (showDetail (hideDetail s) \<and> \<not> is_fist g)"
    and "\<not> showDetail (handleGesture v g s)"
    and "currentIndex (handleGesture v g s) = currentIndex s"
    and "requests (handleGesture v g s) = requests s"
    and "capturesInFlight (handleGesture v g s) = capturesInFlight s"
  using assms
  by (auto simp add: handleGesture_def Let_def hideDetail_def split: variant.splits)

lemma handleGesture_changed_capture:
  assumes "action g \<noteq> lastAction s" "action g = ''capture''"
  shows "requests (handleGesture v g s) = requests (if \<not> showQR s then capturePhoto s else s)"
    and "capturesInFlight (handleGesture v g s) =
           capturesInFlight (if \<not> showQR s then capturePhoto s else s)"
    and "currentIndex (handleGesture v g s) = currentIndex s"
    and "showDetail (handleGesture v g s) = (showDetail s \<and> \<not> is_fist g)"
  using assms
  by (auto simp add: handleGesture_def Let_def hideDetail_def capturePhoto_def
        split: variant.splits)

lemma handleGesture_changed_other:
  assumes "action g \<noteq> lastAction s" "\<not> is_command (action g)"
  shows "currentIndex (handleGesture v g s) = currentIndex s"
    and "requests (handleGesture v g s) = requests s"
    and "capturesInFlight (handleGesture v g s) = capturesInFlight s"
    and "showDetail (handleGesture v g s) = (showDetail s \<and> \<not> is_fist g)"
  using assms
  by (auto simp add: handleGesture_def Let_def hideDetail_def is_command_def commands_def
        split: variant.splits)

lemma edge_scenarios:
  "currentIndex (navigateRight (shelf 5 2)) = 3"
  "requests (navigateRight (shelf 5 2)) = [PostSetIndex 3]"
  "currentIndex (navigateLeft (shelf 5 2)) = 1"
  "requests (navigateLeft (shelf 5 2)) = [PostSetIndex 1]"
  "requests (capturePhoto (shelf 5 2)) = [PostCapture]"
  "capturesInFlight (capturePhoto (shelf 5 2)) = 1"
  "showDetail (showDetail_fn (current_event (shelf 5 2)) (shelf 5 2))"
  "current_event (shelf 5 2) = Some item"
  "\<not> showDetail (shelf 5 2)" "\<not> showQR (shelf 5 2)" "lastAction (shelf 5 2) = ''idle''"
  "requests (shelf 5 2) = []" "currentIndex (shelf 5 2) = 2" "capturesInFlight (shelf 5 2) = 0"
  "showDetail detail_open" "lastAction detail_open = ''detail''"
  "dispatched (shelf 5 2) = []" "\<not> showDetail (hideDetail detail_open)"
  by code_simp+

text \<open>
  Claim C1. \<^verbatim>\<open>handleGesture\<close> stores the action of every frame in \<^verbatim>\<open>lastAction\<close>, and enters
  a case of its \<^verbatim>\<open>switch\<close> only on a frame whose action differs from the stored one, which is
  the action of the frame before. On a frame whose action is the stored one nothing is
  dispatched: no navigation, no request, no capture and no opening of an overlay happens.
  On a frame whose action differs, exactly the command of the new value runs, under its guard:
  \<^verbatim>\<open>nav_left\<close> is one call of \<^verbatim>\<open>navigateRight\<close> and \<^verbatim>\<open>nav_right\<close> one call of \<^verbatim>\<open>navigateLeft\<close>,
  \<^verbatim>\<open>detail\<close> one call of \<^verbatim>\<open>showDetail\<close> on the current item, \<^verbatim>\<open>detail_close\<close> one call of
  \<^verbatim>\<open>hideDetail\<close>, \<^verbatim>\<open>capture\<close> one call of \<^verbatim>\<open>capturePhoto\<close>, and each leaves alone what
  the other commands change; a value that is none of the five, such as \<^verbatim>\<open>none\<close>, runs nothing.
  No frame changes \<^verbatim>\<open>showQR\<close>. The fist check, which is a statement after the \<^verbatim>\<open>switch\<close>,
  can close the detail panel on either kind of frame. Over a list of frames the cases entered
  are the command names among the values at which the action changes.
\<close>

theorem handleGesture_edge_triggered:
  "lastAction (handleGesture v g s) = action g \<and>
   dispatched (handleGesture v g s) =
     dispatched s @ (if action g = lastAction s then [] else filter is_command [action g]) \<and>
   showQR (handleGesture v g s) = showQR s \<and>
   (action g = lastAction s \<longrightarrow>
      currentIndex (handleGesture v g s) = currentIndex s \<and>
      requests (handleGesture v g s) = requests s \<and>
      capturesInFlight (handleGesture v g s) = capturesInFlight s \<and>
      showQR (handleGesture v g s) = showQR s \<and>
      showDetail (handleGesture v g s) = (showDetail s \<and> \<not> is_fist g)) \<and>
   (action g \<noteq> lastAction s \<and> action g = ''nav_left'' \<longrightarrow>
      currentIndex (handleGesture v g s) =
        currentIndex (if \<not> showDetail s \<and> \<not> showQR s then navigateRight s else s) \<and>
      requests (handleGesture v g s) =
        requests (if \<not> showDetail s \<and> \<not> showQR s then navigateRight s else s) \<and>
      capturesInFlight (handleGesture v g s) = capturesInFlight s \<and>
      showDetail (handleGesture v g s) = (showDetail s \<and> \<not> is_fist g)) \<and>
   (action g \<noteq> lastAction s \<and> action g = ''nav_right'' \<longrightarrow>
      currentIndex (handleGesture v g s) =
        currentIndex (if \<not> showDetail s \<and> \<not> showQR s then navigateLeft s else s) \<and>
      requests (handleGesture v g s) =
        requests (if \<not> showDetail s \<and> \<not> showQR s then navigateLeft s else s) \<and>
      capturesInFlight (handleGesture v g s) = capturesInFlight s \<and>
      showDetail (handleGesture v g s) = (showDetail s \<and> \<not> is_fist g)) \<and>
   (action g \<noteq> lastAction s \<and> action g = ''detail'' \<longrightarrow>
      showDetail (handleGesture v g s) =
        (showDetail (if \<not> showQR s \<and> current_event s \<noteq> None
                     then showDetail_fn (current_event s) s else s) \<and> \<not> is_fist g) \<and>
      currentIndex (handleGesture v g s) = currentIndex s \<and>
      requests (handleGesture v g s) = requests s \<and>
      capturesInFlight (handleGesture v g s) = capturesInFlight s) \<and>
   (action g \<noteq> lastAction s \<and> action g = ''detail_close'' \<longrightarrow>
      showDetail (handleGesture v g s) = (showDetail (hideDetail s) \<and> \<not> is_fist g) \<and>
      \<not> showDetail (handleGesture v g s) \<and>
      currentIndex (handleGesture v g s) = currentIndex s \<and>
      requests (handleGesture v g s) = requests s \<and>
      capturesInFlight (handleGesture v g s) = capturesInFlight s) \<and>
   (action g \<noteq> lastAction s \<and> action g = ''capture'' \<longrightarrow>
      requests (handleGesture v g s) = requests (if \<not> showQR s then capturePhoto s else s) \<and>
      capturesInFlight (handleGesture v g s) =
        capturesInFlight (if \<not> showQR s then capturePhoto s else s) \<and>
      currentIndex (handleGesture v g s) = currentIndex s \<and>
      showDetail (handleGesture v g s) = (showDetail s \<and> \<not> is_fist g)) \<and>
   (action g \<noteq> lastAction s \<and> \<not> is_command (action g) \<longrightarrow>
      currentIndex (handleGesture v g s) = currentIndex s \<and>
      requests (handleGesture v g s) = requests s \<and>
      capturesInFlight (handleGesture v g s) = capturesInFlight s \<and>
      showDetail (handleGesture v g s) = (showDetail s \<and> \<not> is_fist g)) \<and>
   dispatched (frames v gs s) =
     dispatched s @ filter is_command (tl (remdups_adj (lastAction s # map action gs)))"
proof -
  have la: "lastAction (handleGesture v g s) = action g"
    by simp
  have disp: "dispatched (handleGesture v g s) =
       dispatched s @ (if action g = lastAction s then [] else filter is_command [action g])"
    by (rule handleGesture_dispatched)
  have q: "showQR (handleGesture v g s) = showQR s"
    by simp
  have same: "action g = lastAction s \<longrightarrow>
        currentIndex (handleGesture v g s) = currentIndex s \<and>
        requests (handleGesture v g s) = requests s \<and>
        capturesInFlight (handleGesture v g s) = capturesInFlight s \<and>
        showQR (handleGesture v g s) = showQR s \<and>
        showDetail (handleGesture v g s) = (showDetail s \<and> \<not> is_fist g)"
    by (simp add: handleGesture_unchanged)
  have nl: "action g \<noteq> lastAction s \<and> action g = ''nav_left'' \<longrightarrow>
        currentIndex (handleGesture v g s) =
          currentIndex (if \<not> showDetail s \<and> \<not> showQR s then navigateRight s else s) \<and>
        requests (handleGesture v g s) =
          requests (if \<not> showDetail s \<and> \<not> showQR s then navigateRight s else s) \<and>
        capturesInFlight (handleGesture v g s) = capturesInFlight s \<and>
        showDetail (handleGesture v g s) = (showDetail s \<and> \<not> is_fist g)"
    using handleGesture_changed_nav_left [of g s v] by blast
  have nr: "action g \<noteq> lastAction s \<and> action g = ''nav_right'' \<longrightarrow>
        currentIndex (handleGesture v g s) =
          currentIndex (if \<not> showDetail s \<and> \<not> showQR s then navigateLeft s else s) \<and>
        requests (handleGesture v g s) =
          requests (if \<not> showDetail s \<and> \<not> showQR s then navigateLeft s else s) \<and>
        capturesInFlight (handleGesture v g s) = capturesInFlight s \<and>
        showDetail (handleGesture v g s) = (showDetail s \<and> \<not> is_fist g)"
    using handleGesture_changed_nav_right [of g s v] by blast
  have dt: "action g \<noteq> lastAction s \<and> action g = ''detail'' \<longrightarrow>
        showDetail (handleGesture v g s) =
          (showDetail (if \<not> showQR s \<and> current_event s \<noteq> None
                       then showDetail_fn (current_event s) s else s) \<and> \<not> is_fist g) \<and>
        currentIndex (handleGesture v g s) = currentIndex s \<and>
        requests (handleGesture v g s) = requests s \<and>
        capturesInFlight (handleGesture v g s) = capturesInFlight s"
    using handleGesture_changed_detail [of g s v] by blast
  have dc: "action g \<noteq> lastAction s \<and> action g = ''detail_close'' \<longrightarrow>
        showDetail (handleGesture v g s) = (showDetail (hideDetail s) \<and> \<not> is_fist g) \<and>
        \<not> showDetail (handleGesture v g s) \<and>
        currentIndex (handleGesture v g s) = currentIndex s \<and>
        requests (handleGesture v g s) = requests s \<and>
        capturesInFlight (handleGesture v g s) = capturesInFlight s"
    using handleGesture_changed_detail_close [of g s v] by blast
  have cp: "action g \<noteq> lastAction s \<and> action g = ''capture'' \<longrightarrow>
        requests (handleGesture v g s) = requests (if \<not> showQR s then capturePhoto s else s) \<and>
        capturesInFlight (handleGesture v g s) =
          capturesInFlight (if \<not> showQR s then capturePhoto s else s) \<and>
        currentIndex (handleGesture v g s) = currentIndex s \<and>
        showDetail (handleGesture v g s) = (showDetail s \<and> \<not> is_fist g)"
    using handleGesture_changed_capture [of g s v] by blast
  have ot: "action g \<noteq> lastAction s \<and> \<not> is_command (action g) \<longrightarrow>
        currentIndex (handleGesture v g s) = currentIndex s \<and>
        requests (handleGesture v g s) = requests s \<and>
        capturesInFlight (handleGesture v g s) = capturesInFlight s \<and>
        showDetail (handleGesture v g s) = (showDetail s \<and> \<not> is_fist g)"
    using handleGesture_changed_other [of g s v] by blast
  have fr: "dispatched (frames v gs s) =
       dispatched s @ filter is_command (tl (remdups_adj (lastAction s # map action gs)))"
    by (rule frames_dispatched)
  show ?thesis
    by (intro conjI) (fact la disp q same nl nr dt dc cp ot fr)+
qed

theorem handleGesture_edge_triggered_witness:
  "action (frame ''nav_left'') = lastAction ((shelf 5 2)\<lparr>lastAction := ''nav_left''\<rparr>) \<and>
   currentIndex (handleGesture Shop (frame ''nav_left'') ((shelf 5 2)\<lparr>lastAction := ''nav_left''\<rparr>)) = 2 \<and>
   requests (handleGesture Shop (frame ''nav_left'') ((shelf 5 2)\<lparr>lastAction := ''nav_left''\<rparr>)) = [] \<and>
   dispatched (frames Faces [frame ''none'', frame ''nav_left'', frame ''nav_left'', frame ''none'',
       frame ''none'', frame ''capture'', frame ''capture''] (shelf 5 2)) = [''nav_left'', ''capture''] \<and>
   action (frame ''nav_left'') \<noteq> lastAction (shelf 5 2) \<and>
   currentIndex (handleGesture Shop (frame ''nav_left'') (shelf 5 2)) = 3 \<and>
   requests (handleGesture Shop (frame ''nav_left'') (shelf 5 2)) = [PostSetIndex 3] \<and>
   currentIndex (handleGesture Shop (frame ''nav_right'') (shelf 5 2)) = 1 \<and>
   requests (handleGesture Shop (frame ''nav_right'') (shelf 5 2)) = [PostSetIndex 1] \<and>
   showDetail (handleGesture Shop (frame ''detail'') (shelf 5 2)) \<and>
   requests (handleGesture Shop (frame ''detail'') (shelf 5 2)) = [] \<and>
   showDetail detail_open \<and>
   \<not> showDetail (handleGesture Shop (frame ''detail_close'') detail_open) \<and>
   requests (handleGesture Shop (frame ''capture'') (shelf 5 2)) = [PostCapture] \<and>
   capturesInFlight (handleGesture Shop (frame ''capture'') (shelf 5 2)) = 1 \<and>
   \<not> is_command ''none'' \<and>
   currentIndex (handleGesture Shop (frame ''none'') (shelf 5 2)) = 2 \<and>
   requests (handleGesture Shop (frame ''none'') (shelf 5 2)) = []"
  using handleGesture_edge_triggered [of Shop "frame ''nav_left''" "(shelf 5 2)\<lparr>lastAction := ''nav_left''\<rparr>" "[]"]
    handleGesture_edge_triggered [of Faces "frame ''none''" "shelf 5 2"
      "[frame ''none'', frame ''nav_left'', frame ''nav_left'', frame ''none'',
       frame ''none'', frame ''capture'', frame ''capture'']"]
    handleGesture_edge_triggered [of Shop "frame ''nav_left''" "shelf 5 2" "[]"]
    handleGesture_edge_triggered [of Shop "frame ''nav_right''" "shelf 5 2" "[]"]
    handleGesture_edge_triggered [of Shop "frame ''detail''" "shelf 5 2" "[]"]
    handleGesture_edge_triggered [of Shop "frame ''detail_close''" detail_open "[]"]
    handleGesture_edge_triggered [of Shop "frame ''capture''" "shelf 5 2" "[]"]
    handleGesture_edge_triggered [of Shop "frame ''none''" "shelf 5 2" "[]"]
    edge_scenarios
  by (simp add: frame_def is_command_def commands_def)

section \<open>The overlays are not exclusive\<close>

text \<open>
  Claim C2 as stated fails: \<^verbatim>\<open>showDetail\<close> and \<^verbatim>\<open>showQR\<close> can be true together. The guard of
  the \<^verbatim>\<open>capture\<close> case, and the one at the head of \<^verbatim>\<open>capturePhoto\<close>, test \<^verbatim>\<open>showQR\<close> only, and
  \<^verbatim>\<open>showQR(...)\<close> does not close the detail panel. After the items are loaded, a
  \<^verbatim>\<open>detail\<close> frame, a \<^verbatim>\<open>capture\<close> frame and the successful capture response leave both flags
  true, in both versions.
\<close>

theorem overlays_exclusive_counterexample:
  "showDetail (run Shop [EventsResponse (Some [item]), SocketGesture (frame ''detail''),
      SocketGesture (frame ''capture''), CaptureResponse True] (initial True True)) \<and>
   showQR (run Shop [EventsResponse (Some [item]), SocketGesture (frame ''detail''),
      SocketGesture (frame ''capture''), CaptureResponse True] (initial True True)) \<and>
   showDetail (run Faces [EventsResponse (Some [item]), SocketGesture (frame ''detail''),
      SocketGesture (frame ''capture''), CaptureResponse True] (initial True True)) \<and>
   showQR (run Faces [EventsResponse (Some [item]), SocketGesture (frame ''detail''),
      SocketGesture (frame ''capture''), CaptureResponse True] (initial True True))"
  using both_overlays_open by simp

text \<open>
  Claim C2, amended. While the QR overlay is shown, no gesture frame opens the detail panel
  or starts a capture, and the overlay stays shown: a \<^verbatim>\<open>detail\<close> frame leaves \<^verbatim>\<open>showDetail\<close> as
  it was (unless the frame is a fist, which closes the panel), and the Enter and Space keys
  do nothing. The converse is not refused: a \<^verbatim>\<open>capture\<close> frame that arrives while the detail
  panel is open posts the capture request, and its successful response opens the QR overlay
  over the open panel.
\<close>

theorem detail_refused_under_qr:
  "(showQR s \<longrightarrow>
      showQR (handleGesture v g s) \<and>
      (showDetail (handleGesture v g s) \<longrightarrow> showDetail s) \<and>
      (action g = ''detail'' \<longrightarrow>
         showDetail (handleGesture v g s) = (showDetail s \<and> \<not> is_fist g)) \<and>
      capturesInFlight (handleGesture v g s) = capturesInFlight s \<and>
      requests (handleGesture v g s) = requests s \<and>
      keydown ''Enter'' s = s \<and> keydown '' '' s = s) \<and>
   (showDetail s \<and> \<not> showQR s \<and> qrOverlay s \<and> action g = ''capture'' \<and>
      action g \<noteq> lastAction s \<and> \<not> is_fist g \<longrightarrow>
      requests (handleGesture v g s) = requests s @ [PostCapture] \<and>
      showDetail (step v (CaptureResponse True) (handleGesture v g s)) \<and>
      showQR (step v (CaptureResponse True) (handleGesture v g s)))"
proof -
  have k: "keydown ''Enter'' s = s \<and> keydown '' '' s = s" if "showQR s"
    using that by (simp add: keydown_def)
  have q: "showQR (handleGesture v g s) = showQR s"
    by simp
  show ?thesis
    using k q handleGesture_under_qr [of s v g] handleGesture_detail_under_qr [of s g v]
      capture_over_detail [of s g v]
    by blast
qed

theorem detail_refused_under_qr_witness:
  "showQR qr_open \<and> \<not> showDetail qr_open \<and> current_event qr_open = Some item \<and>
   action (frame ''detail'') \<noteq> lastAction qr_open \<and>
   \<not> showDetail (handleGesture Shop (frame ''detail'') qr_open) \<and>
   showQR (handleGesture Shop (frame ''detail'') qr_open) \<and>
   showDetail detail_open \<and> \<not> showQR detail_open \<and>
   showDetail (step Shop (CaptureResponse True) (handleGesture Shop (frame ''capture'') detail_open)) \<and>
   showQR (step Shop (CaptureResponse True) (handleGesture Shop (frame ''capture'') detail_open))"
  using detail_refused_under_qr [where v = Shop and s = qr_open and g = "frame ''detail''"]
    detail_refused_under_qr [where v = Shop and s = detail_open and g = "frame ''capture''"]
    qr_open_facts
  by (simp add: frame_def)

section \<open>Theme mode of a frame\<close>

text \<open>
  Claim C3, amended. In the version of the script whose \<^verbatim>\<open>updateThemeMode\<close> receives
  \<^verbatim>\<open>hand_detected\<close> (\<^verbatim>\<open>part_001\<close>), the light mode after a frame is: true if the frame
  has a hand; otherwise the server's \<^verbatim>\<open>light_mode\<close> if \<^verbatim>\<open>time_until_dark\<close> is positive;
  otherwise false, whatever the state before. In \<^verbatim>\<open>src/static/shop_carousel.js\<close> the function has
  no such parameter and the light mode after a frame is the server's \<^verbatim>\<open>light_mode\<close> as
  sent. Both store \<^verbatim>\<open>time_until_dark\<close> as it is.
\<close>

theorem theme_mode_by_version:
  "lightMode (handleGesture Faces g s) =
     (if hand_detected g then True
      else if time_until_dark g > 0 then light_mode g else False) \<and>
   timeUntilDark (handleGesture Faces g s) = time_until_dark g \<and>
   lightMode (handleGesture Shop g s) = light_mode g \<and>
   timeUntilDark (handleGesture Shop g s) = time_until_dark g"
  by (simp add: handleGesture_lightMode effectiveLightMode_def)

text \<open>
  The rule as the claim states it fails on \<^verbatim>\<open>src/static/shop_carousel.js\<close>: a frame with a
  hand and \<^verbatim>\<open>light_mode\<close> false leaves the page dark, and a frame without a hand, with
  \<^verbatim>\<open>time_until_dark\<close> zero and \<^verbatim>\<open>light_mode\<close> true, makes it light.
\<close>

theorem theme_mode_shop_counterexample:
  "hand_detected ((frame ''none'')\<lparr>hand_detected := True\<rparr>) \<and>
   \<not> lightMode (handleGesture Shop ((frame ''none'')\<lparr>hand_detected := True\<rparr>) (initial True True)) \<and>
   \<not> hand_detected ((frame ''none'')\<lparr>light_mode := True\<rparr>) \<and>
   time_until_dark ((frame ''none'')\<lparr>light_mode := True\<rparr>) = 0 \<and>
   lightMode (handleGesture Shop ((frame ''none'')\<lparr>light_mode := True\<rparr>) (initial True True))"
  by (simp add: handleGesture_lightMode frame_def)

section \<open>Direction of the navigation commands\<close>

text \<open>
  Claim C4. With no overlay open, a frame that changes the action to \<^verbatim>\<open>nav_left\<close> moves the
  index up by one and posts it, and one that changes it to \<^verbatim>\<open>nav_right\<close> moves it down by
  one, when the index has room to move; with an overlay open no frame moves the index.
  The frames \<^verbatim>\<open>none\<close>, \<^verbatim>\<open>nav_left\<close>, \<^verbatim>\<open>nav_left\<close> on index 2 of 5 items, from the initial
  \<^verbatim>\<open>lastAction\<close>, end on index 3 after exactly one position request, in both versions.
\<close>

theorem nav_commands_are_inverted:
  "(\<not> showDetail s \<and> \<not> showQR s \<and> action g \<noteq> lastAction s \<and> action g = ''nav_left'' \<and>
      0 \<le> currentIndex s \<and> currentIndex s < int (length (events s)) - 1 \<longrightarrow>
      currentIndex (handleGesture v g s) = currentIndex s + 1 \<and>
      requests (handleGesture v g s) = requests s @ [PostSetIndex (currentIndex s + 1)]) \<and>
   (\<not> showDetail s \<and> \<not> showQR s \<and> action g \<noteq> lastAction s \<and> action g = ''nav_right'' \<and>
      0 < currentIndex s \<and> currentIndex s \<le> int (length (events s)) - 1 \<longrightarrow>
      currentIndex (handleGesture v g s) = currentIndex s - 1 \<and>
      requests (handleGesture v g s) = requests s @ [PostSetIndex (currentIndex s - 1)]) \<and>
   (showDetail s \<or> showQR s \<longrightarrow> currentIndex (handleGesture v g s) = currentIndex s) \<and>
   lastAction (shelf 5 2) = lastAction (initial True True) \<and>
   currentIndex (frames Shop [frame ''none'', frame ''nav_left'', frame ''nav_left''] (shelf 5 2)) = 3 \<and>
   requests (frames Shop [frame ''none'', frame ''nav_left'', frame ''nav_left''] (shelf 5 2))
     = [PostSetIndex 3] \<and>
   currentIndex (frames Faces [frame ''none'', frame ''nav_left'', frame ''nav_left''] (shelf 5 2)) = 3 \<and>
   requests (frames Faces [frame ''none'', frame ''nav_left'', frame ''nav_left''] (shelf 5 2))
     = [PostSetIndex 3]"
proof -
  have left: "currentIndex (handleGesture v g s) = currentIndex s + 1 \<and>
      requests (handleGesture v g s) = requests s @ [PostSetIndex (currentIndex s + 1)]"
    if "\<not> showDetail s" "\<not> showQR s" "action g \<noteq> lastAction s" "action g = ''nav_left''"
      "0 \<le> currentIndex s" "currentIndex s < int (length (events s)) - 1"
    using that
    by (simp add: handleGesture_nav_left navigateRight_def navigateTo_def)
  have right: "currentIndex (handleGesture v g s) = currentIndex s - 1 \<and>
      requests (handleGesture v g s) = requests s @ [PostSetIndex (currentIndex s - 1)]"
    if "\<not> showDetail s" "\<not> showQR s" "action g \<noteq> lastAction s" "action g = ''nav_right''"
      "0 < currentIndex s" "currentIndex s \<le> int (length (events s)) - 1"
    using that
    by (simp add: handleGesture_nav_right navigateLeft_def navigateTo_def)
  have init: "lastAction (shelf 5 2) = lastAction (initial True True)"
    by (simp add: shelf_def)
  show ?thesis
    using left right handleGesture_overlay_blocks_nav [of s v g] init scenario_A
    by blast
qed

theorem nav_commands_are_inverted_witness:
  "currentIndex (handleGesture Shop (frame ''nav_left'') ((shelf 5 2)\<lparr>lastAction := ''none''\<rparr>)) = 3 \<and>
   currentIndex (handleGesture Shop (frame ''nav_right'') ((shelf 5 2)\<lparr>lastAction := ''none''\<rparr>)) = 1 \<and>
   currentIndex (handleGesture Shop (frame ''nav_left'')
      ((shelf 5 2)\<lparr>lastAction := ''none'', showDetail := True\<rparr>)) = 2"
  using nav_commands_are_inverted [of "(shelf 5 2)\<lparr>lastAction := ''none''\<rparr>" "frame ''nav_left''" Shop]
   nav_commands_are_inverted [of "(shelf 5 2)\<lparr>lastAction := ''none''\<rparr>" "frame ''nav_right''" Shop]
   nav_commands_are_inverted [of "(shelf 5 2)\<lparr>lastAction := ''none'', showDetail := True\<rparr>" "frame ''nav_left''" Shop]
  by (simp add: frame_def shelf_def initial_def)

section \<open>The fist check\<close>

text \<open>
  Claim C5. A frame with \<^verbatim>\<open>is_fist\<close> that arrives while the detail panel is open leaves it
  closed, whatever \<^verbatim>\<open>lastAction\<close> holds and whatever the action of the frame is. The
  witness is Scenario D: the stored action and the action of the frame are both \<^verbatim>\<open>none\<close>.
\<close>

theorem fist_closes_detail:
  "is_fist g \<Longrightarrow> showDetail s \<Longrightarrow> \<not> showDetail (handleGesture v g s)"
  by (rule handleGesture_fist)

theorem fist_closes_detail_witness:
  "is_fist ((frame ''none'')\<lparr>is_fist := True\<rparr>) \<and>
   showDetail ((shelf 5 2)\<lparr>showDetail := True, lastAction := ''none''\<rparr>) \<and>
   action ((frame ''none'')\<lparr>is_fist := True\<rparr>)
     = lastAction ((shelf 5 2)\<lparr>showDetail := True, lastAction := ''none''\<rparr>) \<and>
   \<not> showDetail (handleGesture Shop ((frame ''none'')\<lparr>is_fist := True\<rparr>)
        ((shelf 5 2)\<lparr>showDetail := True, lastAction := ''none''\<rparr>))"
  using fist_closes_detail [of "(frame ''none'')\<lparr>is_fist := True\<rparr>"
      "(shelf 5 2)\<lparr>showDetail := True, lastAction := ''none''\<rparr>" Shop]
  by (simp add: frame_def shelf_def initial_def)

section \<open>The index stays in range\<close>

text \<open>
  Claim C6. \<^verbatim>\<open>navigateTo\<close> clamps any target into the range of the items, and gives index 0
  when there is no item; after it, and from any state whose index is in range, every sequence
  of calls of \<^verbatim>\<open>navigateTo\<close>, \<^verbatim>\<open>navigateLeft\<close> and \<^verbatim>\<open>navigateRight\<close> keeps the index in
  range.
\<close>

theorem navigation_stays_in_range:
  "currentIndex (navigateTo i s) = max 0 (min i (int (length (events s)) - 1)) \<and>
   index_in_range (navigateTo i s) \<and>
   index_in_range (foldl call_nav (navigateTo i s) cs) \<and>
   (index_in_range s \<longrightarrow> index_in_range (foldl call_nav s cs))"
  by (simp add: navigateTo_in_range foldl_call_nav_in_range) (simp add: navigateTo_def Let_def)

theorem navigation_stays_in_range_witness:
  "index_in_range (shelf 5 2) \<and>
   index_in_range (foldl call_nav (shelf 5 2)
     [NavigateTo 1000000, NavigateRight, NavigateTo (- 7), NavigateLeft, NavigateRight]) \<and>
   currentIndex (navigateTo 1000000 (shelf 5 2)) = 4 \<and>
   currentIndex (navigateTo (- 7) (shelf 5 2)) = 0 \<and>
   currentIndex (navigateTo 3 (shelf 0 0)) = 0"
  using navigation_stays_in_range [of 1000000 "shelf 5 2"
      "[NavigateTo 1000000, NavigateRight, NavigateTo (- 7), NavigateLeft, NavigateRight]"]
    navigation_stays_in_range [of "- 7" "shelf 5 2" "[]"]
    navigation_stays_in_range [of 3 "shelf 0 0" "[]"]
  by (simp add: index_in_range_def shelf_def initial_def)

section \<open>The QR countdown is cancelled on close\<close>

text \<open>
  Claim C7. In every state the event loop can reach, the active interval timers are exactly
  the handle stored in \<^verbatim>\<open>state.qrInterval\<close>, so at most one countdown runs. A click on the
  overlay and the Escape key close it through \<^verbatim>\<open>hideQR\<close>, as the expiry does. In such a state
  \<^verbatim>\<open>hideQR\<close> clears the timer: no interval is left, a tick for any handle does nothing, and
  until a capture succeeds again no event reopens the overlay, starts a timer or moves the
  countdown. \<^verbatim>\<open>showQR(...)\<close> clears the timer it finds before it starts its own, and sets
  the countdown to 10. The witness is Scenario C: closed by a click after three ticks, seven
  further ticks leave the countdown at 7 and the overlay closed.
\<close>

theorem qr_countdown_is_cancelled:
  "timer_inv (run v es (initial dp qo)) \<and>
   card (intervals (run v es (initial dp qo))) \<le> 1 \<and>
   step v ClickQrOverlay s = hideQR s \<and>
   (showQR s \<longrightarrow> step v (KeyDown ''Escape'') s = hideQR s) \<and>
   (timer_inv s \<longrightarrow>
      intervals (hideQR s) = {} \<and> qrInterval (hideQR s) = None \<and> \<not> showQR (hideQR s) \<and>
      step v (IntervalFire h) (hideQR s) = hideQR s \<and>
      (CaptureResponse True \<notin> set es' \<longrightarrow>
         intervals (run v es' (hideQR s)) = {} \<and> \<not> showQR (run v es' (hideQR s)) \<and>
         qrCountdown (run v es' (hideQR s)) = qrCountdown s) \<and>
      (qrOverlay s \<longrightarrow>
         intervals (showQR_fn s) = {nextHandle s} \<and>
         qrInterval (showQR_fn s) = Some (nextHandle s) \<and>
         showQR (showQR_fn s) \<and> qrCountdown (showQR_fn s) = QR_DISPLAY_TIME))"
proof -
  have reach: "timer_inv (run v es (initial dp qo))"
    by (simp add: timer_inv_run timer_inv_initial)
  have one: "card (intervals (run v es (initial dp qo))) \<le> 1"
    using reach by (cases "qrInterval (run v es (initial dp qo))") (simp_all add: timer_inv_def)
  have paths: "step v ClickQrOverlay s = hideQR s"
    "showQR s \<longrightarrow> step v (KeyDown ''Escape'') s = hideQR s"
    by (simp_all add: keydown_def)
  have rest: "intervals (hideQR s) = {} \<and> qrInterval (hideQR s) = None \<and> \<not> showQR (hideQR s) \<and>
      step v (IntervalFire h) (hideQR s) = hideQR s \<and>
      (CaptureResponse True \<notin> set es' \<longrightarrow>
         intervals (run v es' (hideQR s)) = {} \<and> \<not> showQR (run v es' (hideQR s)) \<and>
         qrCountdown (run v es' (hideQR s)) = qrCountdown s) \<and>
      (qrOverlay s \<longrightarrow>
         intervals (showQR_fn s) = {nextHandle s} \<and>
         qrInterval (showQR_fn s) = Some (nextHandle s) \<and>
         showQR (showQR_fn s) \<and> qrCountdown (showQR_fn s) = QR_DISPLAY_TIME)"
    if inv: "timer_inv s"
  proof -
    have h1: "intervals (hideQR s) = {}" and h2: "qrInterval (hideQR s) = None"
      using hideQR_timers [OF inv] by simp_all
    have h3: "\<not> showQR (hideQR s)" by simp
    have h4: "step v (IntervalFire h) (hideQR s) = hideQR s"
      by (simp add: h1)
    have h5: "intervals (run v es' (hideQR s)) = {} \<and> \<not> showQR (run v es' (hideQR s)) \<and>
         qrCountdown (run v es' (hideQR s)) = qrCountdown s"
      if "CaptureResponse True \<notin> set es'"
      using quiet_run [OF h1 h3 that, of v] by simp
    have h6: "intervals (showQR_fn s) = {nextHandle s} \<and>
         qrInterval (showQR_fn s) = Some (nextHandle s) \<and>
         showQR (showQR_fn s) \<and> qrCountdown (showQR_fn s) = QR_DISPLAY_TIME"
      if "qrOverlay s"
      using showQR_fn_timers [OF inv that] showQR_fn_opens [OF that] by simp
    show ?thesis using h1 h2 h3 h4 h5 h6 by blast
  qed
  show ?thesis using reach one paths rest by blast
qed

theorem qr_countdown_is_cancelled_witness:
  "timer_inv opened \<and> showQR opened \<and> qrCountdown opened = 7 \<and> intervals opened = {1} \<and>
   CaptureResponse True \<notin> set (replicate 7 (IntervalFire 1)) \<and>
   intervals (hideQR opened) = {} \<and>
   \<not> showQR (run Shop (replicate 7 (IntervalFire 1)) (hideQR opened)) \<and>
   qrCountdown (run Shop (replicate 7 (IntervalFire 1)) (hideQR opened)) = 7 \<and>
   qrOverlay opened \<and> intervals (showQR_fn opened) = {2}"
  using qr_countdown_is_cancelled
    [where v = Shop and es = "[]" and s = opened and h = 1
       and es' = "replicate 7 (IntervalFire 1)"]
    opened_facts
  by simp

section \<open>No poll request while push is connected\<close>

text \<open>
  Claim C8. From a state with \<^verbatim>\<open>useWebSocket\<close> true, and as long as the socket neither
  disconnects nor fails to connect, no event issues a request to \<^verbatim>\<open>/api/gesture\<close> or
  schedules a poll timer: a pending timer fires and returns at the flag check, a pending
  response schedules nothing. Whenever a step does issue such a request, the flag is false.
\<close>

theorem no_poll_while_push:
  "(useWebSocket s \<and> SocketDisconnect \<notin> set es \<and> SocketConnectError \<notin> set es \<longrightarrow>
      useWebSocket (run v es s) \<and> pollRequests (run v es s) = pollRequests s \<and>
      pollTimeouts (run v es s) \<le> pollTimeouts s) \<and>
   (pollRequests (step v e s) \<noteq> pollRequests s \<longrightarrow> \<not> useWebSocket (step v e s)) \<and>
   (useWebSocket s \<longrightarrow>
      poll s = s \<and> startPollingFallback s = s \<and>
      pollTimeouts (poll_resume v r s) = pollTimeouts s \<and>
      requests (step v PollTimeout s) = requests s)"
proof -
  have a: "useWebSocket (run v es s) \<and> pollRequests (run v es s) = pollRequests s \<and>
      pollTimeouts (run v es s) \<le> pollTimeouts s"
    if "useWebSocket s" "SocketDisconnect \<notin> set es" "SocketConnectError \<notin> set es"
    using push_run [OF that, of v] by simp
  have b: "poll s = s \<and> startPollingFallback s = s \<and>
      pollTimeouts (poll_resume v r s) = pollTimeouts s \<and>
      requests (step v PollTimeout s) = requests s"
    if "useWebSocket s"
    using that
    by (simp add: poll_def startPollingFallback_def poll_resume_def Let_def split: option.splits)
  show ?thesis
    using a b poll_request_needs_flag_off [of v e s] by blast
qed

theorem no_poll_while_push_witness:
  "useWebSocket reconnected \<and> pollTimeouts reconnected = 1 \<and> pollRequests reconnected = 1 \<and>
   SocketDisconnect \<notin> set [PollTimeout, SocketGesture (frame ''nav_left''), PollTimeout] \<and>
   SocketConnectError \<notin> set [PollTimeout, SocketGesture (frame ''nav_left''), PollTimeout] \<and>
   pollRequests (run Shop [PollTimeout, SocketGesture (frame ''nav_left''), PollTimeout] reconnected) = 1 \<and>
   pollRequests (step Shop SocketDisconnect reconnected) \<noteq> pollRequests reconnected \<and>
   \<not> useWebSocket (step Shop SocketDisconnect reconnected) \<and>
   poll reconnected = reconnected"
  using no_poll_while_push
    [where v = Shop and s = reconnected and e = SocketDisconnect
       and es = "[PollTimeout, SocketGesture (frame ''nav_left''), PollTimeout]"]
    reconnected_facts
  by simp

section \<open>A poll in flight is not cancelled\<close>

text \<open>
  Claim C9 as stated fails: the script never aborts a \<^verbatim>\<open>fetch\<close> and never clears the poll
  timer, and the continuation of \<^verbatim>\<open>poll\<close> calls \<^verbatim>\<open>handleGesture\<close> without testing
  \<^verbatim>\<open>useWebSocket\<close>. With a poll in flight when push reconnects, the response that arrives
  afterwards is handled as a frame: here it moves the index from 2 to 3.
\<close>

theorem poll_in_flight_counterexample:
  "useWebSocket (in_flight Shop) \<and> pollsInFlight (in_flight Shop) = 1 \<and>
   currentIndex (in_flight Shop) = 2 \<and> requests (in_flight Shop) = [GetGesture] \<and>
   step Shop (PollResponse (Some (frame ''nav_left''))) (in_flight Shop)
     = handleGesture Shop (frame ''nav_left'') ((in_flight Shop)\<lparr>pollsInFlight := 0\<rparr>) \<and>
   currentIndex (step Shop (PollResponse (Some (frame ''nav_left''))) (in_flight Shop)) = 3 \<and>
   lastAction (step Shop (PollResponse (Some (frame ''nav_left''))) (in_flight Shop)) = ''nav_left'' \<and>
   requests (step Shop (PollResponse (Some (frame ''nav_left''))) (in_flight Shop))
     = [GetGesture, PostSetIndex 3] \<and>
   useWebSocket (in_flight Faces) \<and> pollsInFlight (in_flight Faces) = 1 \<and>
   currentIndex (in_flight Faces) = 2 \<and>
   currentIndex (step Faces (PollResponse (Some (frame ''nav_left''))) (in_flight Faces)) = 3"
  using in_flight_facts by (simp add: poll_resume_def)

text \<open>
  Claim C9, amended. When push reconnects while a poll is in flight, the request is not
  cancelled: its response is passed to \<^verbatim>\<open>handleGesture\<close> once, with \<^verbatim>\<open>useWebSocket\<close> true, and
  nothing is scheduled after it. A response is handled only while a request is pending. While
  push stays connected the number of pending requests and of pending poll timers does not
  grow and no new poll request is issued, so the late frames are at most the requests that
  were in flight at the reconnect.
\<close>

theorem late_poll_response_is_delivered:
  "(useWebSocket s \<and> 0 < pollsInFlight s \<longrightarrow>
      step v (PollResponse (Some g)) s
        = handleGesture v g (s\<lparr>pollsInFlight := pollsInFlight s - 1\<rparr>)) \<and>
   (pollsInFlight s = 0 \<longrightarrow> step v (PollResponse r) s = s) \<and>
   (useWebSocket s \<and> SocketDisconnect \<notin> set es \<and> SocketConnectError \<notin> set es \<longrightarrow>
      pollsInFlight (run v es s) \<le> pollsInFlight s \<and>
      pollTimeouts (run v es s) \<le> pollTimeouts s \<and>
      pollRequests (run v es s) = pollRequests s)"
proof -
  have a: "step v (PollResponse (Some g)) s
        = handleGesture v g (s\<lparr>pollsInFlight := pollsInFlight s - 1\<rparr>)"
    if "useWebSocket s" "0 < pollsInFlight s"
    using that by (simp add: poll_resume_def)
  have b: "step v (PollResponse r) s = s" if "pollsInFlight s = 0"
    using that by simp
  have c: "pollsInFlight (run v es s) \<le> pollsInFlight s \<and>
      pollTimeouts (run v es s) \<le> pollTimeouts s \<and>
      pollRequests (run v es s) = pollRequests s"
    if "useWebSocket s" "SocketDisconnect \<notin> set es" "SocketConnectError \<notin> set es"
    using push_run [OF that, of v] by simp
  show ?thesis using a b c by blast
qed

theorem late_poll_response_is_delivered_witness:
  "useWebSocket (in_flight Shop) \<and> 0 < pollsInFlight (in_flight Shop) \<and>
   step Shop (PollResponse (Some (frame ''nav_left''))) (in_flight Shop)
     = handleGesture Shop (frame ''nav_left'') ((in_flight Shop)\<lparr>pollsInFlight := 0\<rparr>) \<and>
   pollsInFlight (step Shop (PollResponse (Some (frame ''nav_left''))) (in_flight Shop)) = 0 \<and>
   step Shop (PollResponse (Some (frame ''detail'')))
       (step Shop (PollResponse (Some (frame ''nav_left''))) (in_flight Shop))
     = step Shop (PollResponse (Some (frame ''nav_left''))) (in_flight Shop) \<and>
   pollRequests (run Shop [PollResponse (Some (frame ''nav_left'')), PollTimeout] (in_flight Shop)) = 1"
proof -
  have n: "pollsInFlight (step Shop (PollResponse (Some (frame ''nav_left''))) (in_flight Shop)) = 0"
    by code_simp
  have p: "pollRequests (in_flight Shop) = 1"
    by code_simp
  show ?thesis
    using late_poll_response_is_delivered
        [where v = Shop and s = "in_flight Shop" and g = "frame ''nav_left''"
           and es = "[PollResponse (Some (frame ''nav_left'')), PollTimeout]"]
      late_poll_response_is_delivered
        [where v = Shop and r = "Some (frame ''detail'')"
           and s = "step Shop (PollResponse (Some (frame ''nav_left''))) (in_flight Shop)"]
      in_flight_facts(1,2) n p
    by simp
qed

section \<open>Navigation at the boundary\<close>

text \<open>
  Claim C10. \<^verbatim>\<open>navigateLeft\<close> at index 0, and \<^verbatim>\<open>navigateRight\<close> at the last index or with no
  item, return the page as it was: no field changes and no request is issued.
  \<^verbatim>\<open>navigateTo\<close> always appends one position request, also when the clamped target is the
  current index, so it never returns the page as it was.
\<close>

theorem boundary_navigation_is_noop:
  "(currentIndex s = 0 \<longrightarrow> navigateLeft s = s) \<and>
   (currentIndex s = int (length (events s)) - 1 \<longrightarrow> navigateRight s = s) \<and>
   (events s = [] \<and> 0 \<le> currentIndex s \<longrightarrow> navigateRight s = s) \<and>
   requests (navigateTo i s) =
     requests s @ [PostSetIndex (max 0 (min i (int (length (events s)) - 1)))] \<and>
   navigateTo i s \<noteq> s"
proof -
  have req: "requests (navigateTo i s) =
     requests s @ [PostSetIndex (max 0 (min i (int (length (events s)) - 1)))]"
    by (simp add: navigateTo_def Let_def)
  have "requests (navigateTo i s) \<noteq> requests s"
    by (simp add: req)
  then have "navigateTo i s \<noteq> s" by auto
  then show ?thesis
    by (simp add: navigateLeft_def navigateRight_def req)
qed

theorem boundary_navigation_is_noop_witness:
  "currentIndex (shelf 5 0) = 0 \<and> navigateLeft (shelf 5 0) = shelf 5 0 \<and>
   currentIndex (shelf 5 4) = int (length (events (shelf 5 4))) - 1 \<and>
   navigateRight (shelf 5 4) = shelf 5 4 \<and>
   events (shelf 0 0) = [] \<and> navigateRight (shelf 0 0) = shelf 0 0 \<and>
   currentIndex (shelf 5 4) = 4 \<and>
   requests (navigateTo 9 (shelf 5 4)) = [PostSetIndex 4]"
  using boundary_navigation_is_noop [of "shelf 5 0" 0]
    boundary_navigation_is_noop [of "shelf 5 4" 9]
    boundary_navigation_is_noop [of "shelf 0 0" 0]
  by (simp add: shelf_def initial_def)

end
